theory Spec2Isabelle
  imports Main
begin

section \<open>Variable names\<close>

text \<open>Modelled from the spec: \<^verbatim>\<open>getFullName\<close> is imported by \<^verbatim>\<open>script/build.ts\<close> from
  \<^verbatim>\<open>./lib/variable-collection\<close>, which is not among the sources. The spec (4.1): the
  output joins the prefix and the first path segment with \<^verbatim>\<open>-\<close>; subsequent segments
  are appended with \<^verbatim>\<open>.\<close>. The path is non-empty by contract; for the empty path, on
  which the spec is silent, the model returns the prefix followed by the separator.
\<close>

definition getFullName :: "string \<Rightarrow> string list \<Rightarrow> string" where
  "getFullName prefix path =
     (case path of
        [] \<Rightarrow> prefix @ ''-''
      | a # rest \<Rightarrow> foldl (\<lambda>acc s. acc @ ''.'' @ s) (prefix @ ''-'' @ a) rest)"

text \<open>
  \<^verbatim>\<open>name.split('.')\<close> of JavaScript: the pieces between the dots, of which there is
  always at least one (\<^verbatim>\<open>''.split('.')\<close> is \<^verbatim>\<open>['']\<close>).
\<close>

fun splitDot :: "string \<Rightarrow> string list" where
  "splitDot [] = [[]]"
| "splitDot (c # cs) =
     (if c = CHR ''.'' then [] # splitDot cs
      else (case splitDot cs of [] \<Rightarrow> [[c]] | s # ss \<Rightarrow> (c # s) # ss))"

text \<open>The well-formed pairs of the Name Resolver: a prefix that does not contain the
  separator \<^verbatim>\<open>-\<close>, and a non-empty path whose segments do not contain the separator
  \<^verbatim>\<open>.\<close>.\<close>

definition wellFormedName :: "string \<Rightarrow> string list \<Rightarrow> bool" where
  "wellFormedName prefix path \<longleftrightarrow>
     CHR ''-'' \<notin> set prefix \<and> path \<noteq> [] \<and> list_all (\<lambda>s. CHR ''.'' \<notin> set s) path"


section \<open>Variable collections\<close>

text \<open>Modelled from the spec: the classes \<^verbatim>\<open>VariableCollection\<close> and \<^verbatim>\<open>ModeCollection\<close>
  (\<^verbatim>\<open>script/lib\<close>) are not among the sources; \<^verbatim>\<open>script/build.ts\<close> only constructs and
  queries them. The spec (3): a Variable has a name, a value that is a resolved scalar or
  a deferred function of the theme context, and the path of the nested keys that produced
  it. Scalars and deferred functions are opaque to the engine: they are the type
  parameters \<open>'v\<close> and \<open>'f\<close>.
\<close>

datatype ('v, 'f) resolved = Scalar 'v | Deferred 'f

record ('v, 'f) Variable =
  var_name :: string
  var_value :: "('v, 'f) resolved"
  var_path :: "string list"

text \<open>Modelled from the spec: a Variable Collection has a mode name, a prefix and an ordered
  mapping from name to Variable, kept here as the list of its entries in insertion order.
\<close>

record ('v, 'f) VariableCollection =
  vc_name :: string
  vc_prefix :: string
  vc_data :: "(string \<times> ('v, 'f) Variable) list"

text \<open>Modelled from the spec: a collection is constructed empty with mode and prefix
  (\<^verbatim>\<open>new VariableCollection(mode, prefix, null)\<close> in \<^verbatim>\<open>script/build.ts\<close>).\<close>

definition newVariableCollection :: "string \<Rightarrow> string \<Rightarrow> ('v, 'f) VariableCollection" where
  "newVariableCollection mode prefix = \<lparr>vc_name = mode, vc_prefix = prefix, vc_data = []\<rparr>"

text \<open>Writing a key of an ordered mapping: an existing key keeps its place and takes
  the new value, a new key goes to the end.\<close>

fun mapSet :: "('k \<times> 'a) list \<Rightarrow> 'k \<Rightarrow> 'a \<Rightarrow> ('k \<times> 'a) list" where
  "mapSet [] k v = [(k, v)]"
| "mapSet ((k', v') # kvs) k v =
     (if k' = k then (k, v) # kvs else (k', v') # mapSet kvs k v)"

text \<open>Modelled from the spec: \<^verbatim>\<open>getByName(name) -> Variable | absent\<close>.\<close>

definition getByName :: "('v, 'f) VariableCollection \<Rightarrow> string \<Rightarrow> ('v, 'f) Variable option" where
  "getByName vars n = map_of (vc_data vars) n"

text \<open>The names a collection exposes, in insertion order.\<close>

definition variableNames :: "('v, 'f) VariableCollection \<Rightarrow> string list" where
  "variableNames vars = map fst (vc_data vars)"


section \<open>Mode collections\<close>

text \<open>Modelled from the spec: a Mode Collection has a type, a prefix and an ordered mapping
  from mode name to Variable Collection; \<^verbatim>\<open>add\<close> registers a mode with the overwrite
  policy of the mapping, and \<^verbatim>\<open>finalize\<close> is the transition from Building to Finalized
  (its derivation of defaults is external to the core's contract, so only the transition
  is recorded).
\<close>

record ('v, 'f) ModeCollection =
  mc_type :: string
  mc_prefix :: string
  mc_modes :: "(string \<times> ('v, 'f) VariableCollection) list"
  mc_finalized :: bool

text \<open>Modelled from the spec: a Mode Collection is constructed with type and prefix
  (\<^verbatim>\<open>new ModeCollection(type, prefix)\<close> in \<^verbatim>\<open>script/build.ts\<close>).\<close>

definition newModeCollection :: "string \<Rightarrow> string \<Rightarrow> ('v, 'f) ModeCollection" where
  "newModeCollection type prefix =
     \<lparr>mc_type = type, mc_prefix = prefix, mc_modes = [], mc_finalized = False\<rparr>"

text \<open>Modelled from the spec: \<^verbatim>\<open>add(modeName, variableCollection)\<close> registers a mode; a
  duplicate mode name overwrites.\<close>

definition add :: "('v, 'f) ModeCollection \<Rightarrow> string \<Rightarrow> ('v, 'f) VariableCollection
    \<Rightarrow> ('v, 'f) ModeCollection" where
  "add collection mode vars = collection\<lparr>mc_modes := mapSet (mc_modes collection) mode vars\<rparr>"

text \<open>Modelled from the spec: \<^verbatim>\<open>finalize()\<close>, the idempotent transition to Finalized.\<close>

definition finalize :: "('v, 'f) ModeCollection \<Rightarrow> ('v, 'f) ModeCollection" where
  "finalize collection = collection\<lparr>mc_finalized := True\<rparr>"


section \<open>The replacement ledger validator of \<^verbatim>\<open>script/build.ts\<close>\<close>

text \<open>A parsed JSON value. The value of a number plays no role in the validation.\<close>

datatype json =
    JNull
  | JBool bool
  | JNum int
  | JStr string
  | JArr "json list"
  | JObj "(string \<times> json) list"

text \<open>
  The error messages. Each constructor stands for one message template of the source and
  carries the values the template interpolates, in the template's order; the colouring of
  the text by \<^verbatim>\<open>chalk\<close> is left out.
\<close>

datatype ledger_error =
    CannotDeprecateUndefined string string
      \<comment> \<open>Cannot deprecate undefined variable "variable" in inputFile\<close>
  | RemovedStillDefined string string
      \<comment> \<open>Variable "variable" is marked as removed in inputFile but is still defined\<close>
  | InvalidReplacement string json string
      \<comment> \<open>Cannot replace "original" with invalid variable replacementVar in inputFile\<close>
  | UndefinedReplacement string json string
      \<comment> \<open>Cannot replace "original" with undefined variable replacementVar in inputFile\<close>
  | DeprecatedReplacement string json string
      \<comment> \<open>Cannot replace "original" with deprecated variable replacementVar in inputFile\<close>

text \<open>\<^verbatim>\<open>existsInCollection\<close>: the dotted name is split, prefixed, and looked up in every
  mode; \<^verbatim>\<open>Boolean\<close> of the lookup is true exactly when a Variable is returned.\<close>

definition existsInCollection :: "('v, 'f) ModeCollection \<Rightarrow> string \<Rightarrow> bool" where
  "existsInCollection collection n =
     (let varName = getFullName (mc_prefix collection) (splitDot n)
      in list_ex (\<lambda>mode. getByName mode varName \<noteq> None) (map snd (mc_modes collection)))"

definition validateDeprecatedVar ::
    "string \<Rightarrow> ('v, 'f) ModeCollection \<Rightarrow> string \<Rightarrow> ledger_error list" where
  "validateDeprecatedVar variable collection inputFile =
     (if \<not> existsInCollection collection variable
      then [CannotDeprecateUndefined variable inputFile] else [])"

definition validateRemovedVar ::
    "string \<Rightarrow> ('v, 'f) ModeCollection \<Rightarrow> string \<Rightarrow> ledger_error list" where
  "validateRemovedVar variable collection inputFile =
     (if existsInCollection collection variable
      then [RemovedStillDefined variable inputFile] else [])"

text \<open>\<^verbatim>\<open>forEachReplacementVar\<close>: the callback pushes errors; here it returns the errors it
  pushes, and the calls are concatenated in their order.\<close>

definition forEachReplacementVar :: "json \<Rightarrow> (json \<Rightarrow> 'e list) \<Rightarrow> 'e list" where
  "forEachReplacementVar replacement fn =
     (case replacement of
        JNull \<Rightarrow> []
      | JArr rs \<Rightarrow> concat (map fn rs)
      | _ \<Rightarrow> fn replacement)"

text \<open>The callback of \<^verbatim>\<open>writeReplacements\<close> (lines 213 to 243): three checks, each of
  which pushes one error and returns.\<close>

definition checkReplacementVar ::
    "string \<Rightarrow> ('v, 'f) ModeCollection \<Rightarrow> string \<Rightarrow> (string \<times> json) list \<Rightarrow> json
      \<Rightarrow> ledger_error list" where
  "checkReplacementVar original collection inputFile replacementMap replacementVar =
     (case replacementVar of
        JStr s \<Rightarrow>
          if \<not> existsInCollection collection s
          then [UndefinedReplacement original replacementVar inputFile]
          else if s \<in> set (map fst replacementMap)
          then [DeprecatedReplacement original replacementVar inputFile]
          else []
      | _ \<Rightarrow> [InvalidReplacement original replacementVar inputFile])"

text \<open>The body of the loop over \<^verbatim>\<open>Object.entries(replacementMap)\<close> for one entry, and the
  loop (lines 208 to 244). The ledger is the parsed JSON object, given as the list of its
  entries in the order of \<^verbatim>\<open>Object.entries\<close>.\<close>

definition entryErrors ::
    "(string \<Rightarrow> ('v, 'f) ModeCollection \<Rightarrow> string \<Rightarrow> ledger_error list)
      \<Rightarrow> ('v, 'f) ModeCollection \<Rightarrow> string \<Rightarrow> (string \<times> json) list \<Rightarrow> string \<times> json
      \<Rightarrow> ledger_error list" where
  "entryErrors validateVar collection inputFile replacementMap entry =
     (case entry of (original, replacement) \<Rightarrow>
        validateVar original collection inputFile
        @ forEachReplacementVar replacement
            (checkReplacementVar original collection inputFile replacementMap))"

definition validations ::
    "(string \<Rightarrow> ('v, 'f) ModeCollection \<Rightarrow> string \<Rightarrow> ledger_error list)
      \<Rightarrow> ('v, 'f) ModeCollection \<Rightarrow> string \<Rightarrow> (string \<times> json) list \<Rightarrow> ledger_error list" where
  "validations validateVar collection inputFile replacementMap =
     concat (map (entryErrors validateVar collection inputFile replacementMap) replacementMap)"

text \<open>
  \<^verbatim>\<open>writeReplacements\<close>. The file system is a parameter: the ledger file is missing, or
  \<^verbatim>\<open>JSON.parse\<close> throws on it, or it parses to an object (a ledger file holding
  another JSON value is not modelled, nor is a failure to write the output). The result
  says what the call did to the outside: nothing, the file it wrote (directory, file name,
  content), or the status of \<^verbatim>\<open>process.exit\<close> with what was logged before it. Paths
  are joined with \<^verbatim>\<open>/\<close>, and \<^verbatim>\<open>dataDir\<close> stands for the directory \<^verbatim>\<open>data\<close> next to
  the script's.
\<close>

datatype ledger_file = Missing | Unparsable string | Ledger "(string \<times> json) list"

datatype fatal = ParseFailure string | Violations "ledger_error list"

datatype outcome =
    Nothing
  | Written string string "(string \<times> json) list"
  | Exit nat fatal

definition dataDir :: string where
  "dataDir = ''data''"

definition writeReplacements ::
    "ledger_file \<Rightarrow> string \<Rightarrow> string \<Rightarrow> ('v, 'f) ModeCollection
      \<Rightarrow> (string \<Rightarrow> ('v, 'f) ModeCollection \<Rightarrow> string \<Rightarrow> ledger_error list) \<Rightarrow> outcome" where
  "writeReplacements file inputFilename outputDir collection validateVar =
     (let inputFile = dataDir @ ''/'' @ mc_type collection @ ''/'' @ inputFilename
      in case file of
           Missing \<Rightarrow> Nothing
         | Unparsable msg \<Rightarrow> Exit 1 (ParseFailure msg)
         | Ledger replacementMap \<Rightarrow>
             (let errors = validations validateVar collection inputFile replacementMap
              in if length errors = 0
                 then Written outputDir (mc_type collection @ ''.json'') replacementMap
                 else Exit 1 (Violations errors)))"

text \<open>The classes of errors the spec names.\<close>

fun isStaleDeprecation :: "ledger_error \<Rightarrow> bool" where
  "isStaleDeprecation (CannotDeprecateUndefined _ _) = True"
| "isStaleDeprecation _ = False"

fun isInvalidRemoval :: "ledger_error \<Rightarrow> bool" where
  "isInvalidRemoval (RemovedStillDefined _ _) = True"
| "isInvalidRemoval _ = False"

fun isChainedReplacement :: "ledger_error \<Rightarrow> bool" where
  "isChainedReplacement (DeprecatedReplacement _ _ _) = True"
| "isChainedReplacement _ = False"


section \<open>Flattening a token tree into a Variable Collection\<close>

text \<open>
  A token value as the data files write it (\<^verbatim>\<open>data/colors_v2/light.ts\<close>): a literal, a
  reference \<^verbatim>\<open>get('scale.gray.9')\<close> to another variable by its dotted name, a function
  of the theme, or a nested mapping, given as the list of its entries in key order.
\<close>

datatype ('v, 'f) token =
    Literal 'v
  | Reference string
  | DeferredFn 'f
  | Nested "(string \<times> ('v, 'f) token) list"

datatype build_error = UndefinedReference string string
  \<comment> \<open>the offending name and the mode\<close>

text \<open>Modelled from the spec: \<^verbatim>\<open>addFromObject\<close> of \<^verbatim>\<open>script/lib/variable-collection\<close> is not
  among the sources. The spec (4.2): a reference is resolved by looking up the
  already-inserted variable with that name within the same collection and copying its
  resolved value (a deferred function is carried through unevaluated); otherwise
  resolution fails with an undefined reference error. The name of a reference is dotted
  and without prefix, and is prefixed before lookup.
\<close>

definition resolveReference ::
    "('v, 'f) VariableCollection \<Rightarrow> string \<Rightarrow> build_error + ('v, 'f) resolved" where
  "resolveReference vars n =
     (case getByName vars (getFullName (vc_prefix vars) (splitDot n)) of
        None \<Rightarrow> Inl (UndefinedReference n (vc_name vars))
      | Some x \<Rightarrow> Inr (var_value x))"

text \<open>Modelled from the spec: inserting a Variable under its canonical name; a later
  leaf at the same name overwrites the earlier one.\<close>

definition addVariable ::
    "('v, 'f) VariableCollection \<Rightarrow> string list \<Rightarrow> ('v, 'f) resolved
      \<Rightarrow> ('v, 'f) VariableCollection" where
  "addVariable vars path v =
     (let n = getFullName (vc_prefix vars) path
      in vars\<lparr>vc_data :=
           mapSet (vc_data vars) n \<lparr>var_name = n, var_value = v, var_path = path\<rparr>\<rparr>)"

text \<open>Modelled from the spec: the recursive walk. At a leaf the name is computed from the
  accumulated key path, the value is resolved and the Variable inserted; a nested mapping
  recurses with the path extended by the current key. The walk is a single pass in key
  order, and an undefined reference ends it.
\<close>

fun addValue ::
    "('v, 'f) VariableCollection \<Rightarrow> string list \<Rightarrow> ('v, 'f) token
      \<Rightarrow> build_error + ('v, 'f) VariableCollection"
  and addEntries ::
    "('v, 'f) VariableCollection \<Rightarrow> string list \<Rightarrow> (string \<times> ('v, 'f) token) list
      \<Rightarrow> build_error + ('v, 'f) VariableCollection" where
  "addValue vars path (Literal v) = Inr (addVariable vars path (Scalar v))"
| "addValue vars path (DeferredFn f) = Inr (addVariable vars path (Deferred f))"
| "addValue vars path (Reference n) =
     (case resolveReference vars n of
        Inl e \<Rightarrow> Inl e
      | Inr v \<Rightarrow> Inr (addVariable vars path v))"
| "addValue vars path (Nested kvs) = addEntries vars path kvs"
| "addEntries vars path [] = Inr vars"
| "addEntries vars path ((k, t) # rest) =
     (case addValue vars (path @ [k]) t of
        Inl e \<Rightarrow> Inl e
      | Inr vars' \<Rightarrow> addEntries vars' path rest)"

text \<open>Modelled from the spec: \<^verbatim>\<open>addFromObject(tree)\<close> starts the walk at the empty
  path.\<close>

definition addFromObject ::
    "('v, 'f) VariableCollection \<Rightarrow> (string \<times> ('v, 'f) token) list
      \<Rightarrow> build_error + ('v, 'f) VariableCollection" where
  "addFromObject vars tree = addEntries vars [] tree"

text \<open>Modelled from the spec: \<^verbatim>\<open>tree()\<close> reconstructs the nested object from the flat
  mapping, using each Variable's stored path, in insertion order. Writing a value at a
  path creates the objects on the way that are not there yet.
\<close>

text \<open>The nested object that \<^verbatim>\<open>tree()\<close> returns.\<close>

datatype ('v, 'f) obj =
    Leaf "('v, 'f) resolved"
  | Obj "(string \<times> ('v, 'f) obj) list"

text \<open>Modelled from the spec: writing one Variable's value at its path into the object
  under construction.\<close>

fun setPath ::
    "(string \<times> ('v, 'f) obj) list \<Rightarrow> string list \<Rightarrow> ('v, 'f) resolved
      \<Rightarrow> (string \<times> ('v, 'f) obj) list" where
  "setPath props [] v = props"
| "setPath props [k] v = mapSet props k (Leaf v)"
| "setPath props (k # k' # ks) v =
     mapSet props k
       (Obj (setPath (case map_of props k of Some (Obj sub) \<Rightarrow> sub | _ \<Rightarrow> []) (k' # ks) v))"

text \<open>Modelled from the spec: \<^verbatim>\<open>tree()\<close>, the loop over the Variables in insertion
  order.\<close>

definition tree :: "('v, 'f) VariableCollection \<Rightarrow> ('v, 'f) obj" where
  "tree vars =
     Obj (foldl (\<lambda>props x. setPath props (var_path x) (var_value x)) []
            (map snd (vc_data vars)))"

text \<open>The original tree with every reference replaced by the resolved value of the
  variable it names in a collection; \<open>None\<close> when a reference names no variable.\<close>

fun resolvedValue ::
    "('v, 'f) VariableCollection \<Rightarrow> ('v, 'f) token \<Rightarrow> ('v, 'f) obj option"
  and resolvedEntries ::
    "('v, 'f) VariableCollection \<Rightarrow> (string \<times> ('v, 'f) token) list
      \<Rightarrow> (string \<times> ('v, 'f) obj) list option" where
  "resolvedValue vars (Literal v) = Some (Leaf (Scalar v))"
| "resolvedValue vars (DeferredFn f) = Some (Leaf (Deferred f))"
| "resolvedValue vars (Reference n) =
     (case resolveReference vars n of Inl e \<Rightarrow> None | Inr v \<Rightarrow> Some (Leaf v))"
| "resolvedValue vars (Nested kvs) = map_option Obj (resolvedEntries vars kvs)"
| "resolvedEntries vars [] = Some []"
| "resolvedEntries vars ((k, t) # rest) =
     (case resolvedValue vars t of
        None \<Rightarrow> None
      | Some x \<Rightarrow>
          (case resolvedEntries vars rest of
             None \<Rightarrow> None
           | Some xs \<Rightarrow> Some ((k, x) # xs)))"

text \<open>The leaves of a tree in the order of the walk, each with its key path.\<close>

fun leaves :: "string list \<Rightarrow> ('v, 'f) token \<Rightarrow> (string list \<times> ('v, 'f) token) list"
  and entryLeaves ::
    "string list \<Rightarrow> (string \<times> ('v, 'f) token) list \<Rightarrow> (string list \<times> ('v, 'f) token) list" where
  "leaves path (Nested kvs) = entryLeaves path kvs"
| "leaves path (Literal v) = [(path, Literal v)]"
| "leaves path (DeferredFn f) = [(path, DeferredFn f)]"
| "leaves path (Reference n) = [(path, Reference n)]"
| "entryLeaves path [] = []"
| "entryLeaves path ((k, t) # rest) = leaves (path @ [k]) t @ entryLeaves path rest"

text \<open>A well-formed token tree: at every level the keys are distinct (it is an object),
  no nested mapping is empty, and no two leaves have the same canonical name.\<close>

fun properValue :: "('v, 'f) token \<Rightarrow> bool"
  and properEntries :: "(string \<times> ('v, 'f) token) list \<Rightarrow> bool" where
  "properValue (Nested kvs) \<longleftrightarrow> kvs \<noteq> [] \<and> properEntries kvs"
| "properValue (Literal v) \<longleftrightarrow> True"
| "properValue (DeferredFn f) \<longleftrightarrow> True"
| "properValue (Reference n) \<longleftrightarrow> True"
| "properEntries [] \<longleftrightarrow> True"
| "properEntries ((k, t) # rest) \<longleftrightarrow>
     k \<notin> set (map fst rest) \<and> properValue t \<and> properEntries rest"

definition wellFormedTree :: "string \<Rightarrow> (string \<times> ('v, 'f) token) list \<Rightarrow> bool" where
  "wellFormedTree prefix kvs \<longleftrightarrow>
     properEntries kvs \<and> distinct (map (\<lambda>l. getFullName prefix (fst l)) (entryLeaves [] kvs))"

text \<open>The references of a walk that find their variable: every reference names a
  variable of the given names or the name of a leaf before it.\<close>

fun referencesDefined ::
    "string \<Rightarrow> string list \<Rightarrow> (string list \<times> ('v, 'f) token) list \<Rightarrow> bool" where
  "referencesDefined prefix defined [] \<longleftrightarrow> True"
| "referencesDefined prefix defined ((path, t) # rest) \<longleftrightarrow>
     (case t of
        Reference n \<Rightarrow> getFullName prefix (splitDot n) \<in> set defined
      | _ \<Rightarrow> True)
     \<and> referencesDefined prefix (defined @ [getFullName prefix path]) rest"


section \<open>Validation of a Mode Collection\<close>

datatype parity_error = ModeParityViolation string string
  \<comment> \<open>the offending mode and the variable it lacks\<close>

record validation =
  isValid :: bool
  errors :: "parity_error list"

text \<open>The names of another mode that a mode lacks: the half of the symmetric
  difference of the pair that is held against the first mode.\<close>

definition missingIn ::
    "('v, 'f) VariableCollection \<Rightarrow> ('v, 'f) VariableCollection \<Rightarrow> string list" where
  "missingIn vars others = filter (\<lambda>n. getByName vars n = None) (variableNames others)"

text \<open>Modelled from the spec: \<^verbatim>\<open>validate\<close> of \<^verbatim>\<open>script/lib/mode-collection\<close> is not among the
  sources. The spec (4.3, 7): for every pair of modes, the symmetric difference of
  variable names is computed; a difference is reported as one error per missing variable,
  naming the offending mode and the variable, per (mode, variable) pair; all errors are
  collected, and the result is a value. Every ordered pair of modes is visited, which
  gives both halves of each symmetric difference, and a (mode, variable) pair that several
  pairs of modes bring up is kept once.
\<close>

definition validate :: "('v, 'f) ModeCollection \<Rightarrow> validation" where
  "validate collection =
     (let errs = remdups (concat (map (\<lambda>(m, vars).
                   concat (map (\<lambda>(m', others). map (ModeParityViolation m) (missingIn vars others))
                     (mc_modes collection)))
                   (mc_modes collection)))
      in \<lparr>isValid = (errs = []), errors = errs\<rparr>)"


section \<open>Auxiliary notions\<close>

text \<open>The segments of a path joined by dots: the dotted name that \<^verbatim>\<open>split('.')\<close> takes
  apart.\<close>

fun joinDots :: "string list \<Rightarrow> string" where
  "joinDots [] = []"
| "joinDots (a # rest) = a @ concat (map ((#) CHR ''.'') rest)"

text \<open>The replacement targets: the values on which \<^verbatim>\<open>forEachReplacementVar\<close> calls its
  callback, in order.\<close>

fun replacementTargets :: "json \<Rightarrow> json list" where
  "replacementTargets JNull = []"
| "replacementTargets (JArr rs) = rs"
| "replacementTargets r = [r]"

text \<open>\<^verbatim>\<open>typeof replacementVar === 'string'\<close>.\<close>

fun isString :: "json \<Rightarrow> bool" where
  "isString (JStr s) = True"
| "isString _ = False"


text \<open>A token that is a nested mapping, as opposed to a leaf.\<close>

fun isNested :: "('v, 'f) token \<Rightarrow> bool" where
  "isNested (Nested kvs) = True"
| "isNested _ = False"

text \<open>The walk over a list of leaves: what \<open>addValue\<close> does to the leaves of a tree, one
  after the other, ending at the first undefined reference.\<close>

fun addLeaves ::
    "('v, 'f) VariableCollection \<Rightarrow> (string list \<times> ('v, 'f) token) list
      \<Rightarrow> build_error + ('v, 'f) VariableCollection" where
  "addLeaves vars [] = Inr vars"
| "addLeaves vars ((path, t) # rest) =
     (case addValue vars path t of
        Inl e \<Rightarrow> Inl e
      | Inr vars' \<Rightarrow> addLeaves vars' rest)"

text \<open>The resolved value a collection gives a leaf.\<close>

fun leafValue :: "('v, 'f) VariableCollection \<Rightarrow> ('v, 'f) token \<Rightarrow> ('v, 'f) resolved option" where
  "leafValue vars (Literal v) = Some (Scalar v)"
| "leafValue vars (DeferredFn f) = Some (Deferred f)"
| "leafValue vars (Reference n) =
     (case resolveReference vars n of Inl e \<Rightarrow> None | Inr v \<Rightarrow> Some v)"
| "leafValue vars (Nested kvs) = None"

text \<open>The loop of \<open>tree\<close> over a list of paths and values.\<close>

definition rebuild ::
    "(string \<times> ('v, 'f) obj) list \<Rightarrow> (string list \<times> ('v, 'f) resolved) list
      \<Rightarrow> (string \<times> ('v, 'f) obj) list" where
  "rebuild props ls = foldl (\<lambda>acc l. setPath acc (fst l) (snd l)) props ls"

text \<open>The leaves of a walk with the values a collection gives them.\<close>

definition valued ::
    "('v, 'f) VariableCollection \<Rightarrow> (string list \<times> ('v, 'f) token) list
      \<Rightarrow> (string list \<times> ('v, 'f) resolved) list" where
  "valued vars ls = map (\<lambda>l. (fst l, the (leafValue vars (snd l)))) ls"

section \<open>Example data\<close>

text \<open>A type \<^verbatim>\<open>colors\<close> with two modes that disagree on \<^verbatim>\<open>fg.default\<close>, and a ledger
  whose first entry points at its second key.\<close>

definition exampleLight :: "(string, unit) VariableCollection" where
  "exampleLight =
     \<lparr>vc_name = ''light'', vc_prefix = ''colors'',
      vc_data =
        [(''colors-scale.black'',
          \<lparr>var_name = ''colors-scale.black'', var_value = Scalar ''#1b1f23'',
           var_path = [''scale'', ''black'']\<rparr>),
         (''colors-fg.default'',
          \<lparr>var_name = ''colors-fg.default'', var_value = Scalar ''#1b1f23'',
           var_path = [''fg'', ''default'']\<rparr>)]\<rparr>"

definition exampleDark :: "(string, unit) VariableCollection" where
  "exampleDark =
     \<lparr>vc_name = ''dark'', vc_prefix = ''colors'',
      vc_data =
        [(''colors-scale.black'',
          \<lparr>var_name = ''colors-scale.black'', var_value = Scalar ''#010409'',
           var_path = [''scale'', ''black'']\<rparr>)]\<rparr>"

definition exampleCollection :: "(string, unit) ModeCollection" where
  "exampleCollection =
     \<lparr>mc_type = ''colors'', mc_prefix = ''colors'',
      mc_modes = [(''light'', exampleLight), (''dark'', exampleDark)],
      mc_finalized = True\<rparr>"

definition exampleLedger :: "(string \<times> json) list" where
  "exampleLedger = [(''fg.old'', JStr ''bg.gone''), (''bg.gone'', JNull)]"

definition exampleChain :: "(string \<times> json) list" where
  "exampleChain =
     [(''fg.old'', JArr [JStr ''fg.default'', JStr ''scale.black'']), (''fg.default'', JNull)]"

text \<open>A token tree in the manner of \<^verbatim>\<open>data/colors_v2/light.ts\<close>, whose references name
  earlier leaves; a tree with a forward reference; the flattened first tree; and two dark
  modes with the same names and different values.\<close>

definition exampleTree :: "(string \<times> (string, unit) token) list" where
  "exampleTree =
     [(''scale'', Nested [(''black'', Literal ''#1b1f23''), (''white'', Literal ''#ffffff'')]),
      (''btn'', Nested
         [(''text'', Reference ''scale.black''),
          (''shadow'', DeferredFn ()),
          (''primary'', Nested [(''text'', Reference ''scale.white'')])])]"

definition exampleForward :: "(string \<times> (string, unit) token) list" where
  "exampleForward =
     [(''btn'', Nested [(''text'', Reference ''scale.white'')]),
      (''scale'', Nested [(''white'', Literal ''#ffffff'')])]"

definition exampleFlat :: "(string, unit) VariableCollection" where
  "exampleFlat =
     \<lparr>vc_name = ''light'', vc_prefix = ''colors'',
      vc_data =
        [(''colors-scale.black'',
          \<lparr>var_name = ''colors-scale.black'', var_value = Scalar ''#1b1f23'',
           var_path = [''scale'', ''black'']\<rparr>),
         (''colors-scale.white'',
          \<lparr>var_name = ''colors-scale.white'', var_value = Scalar ''#ffffff'',
           var_path = [''scale'', ''white'']\<rparr>),
         (''colors-btn.text'',
          \<lparr>var_name = ''colors-btn.text'', var_value = Scalar ''#1b1f23'',
           var_path = [''btn'', ''text'']\<rparr>),
         (''colors-btn.shadow'',
          \<lparr>var_name = ''colors-btn.shadow'', var_value = Deferred (),
           var_path = [''btn'', ''shadow'']\<rparr>),
         (''colors-btn.primary.text'',
          \<lparr>var_name = ''colors-btn.primary.text'', var_value = Scalar ''#ffffff'',
           var_path = [''btn'', ''primary'', ''text'']\<rparr>)]\<rparr>"

definition exampleDim :: "(string, unit) VariableCollection" where
  "exampleDim =
     \<lparr>vc_name = ''dark_dimmed'', vc_prefix = ''colors'',
      vc_data =
        [(''colors-scale.black'',
          \<lparr>var_name = ''colors-scale.black'', var_value = Scalar ''#1c2128'',
           var_path = [''scale'', ''black'']\<rparr>)]\<rparr>"

definition exampleDarks :: "(string, unit) ModeCollection" where
  "exampleDarks =
     \<lparr>mc_type = ''colors'', mc_prefix = ''colors'',
      mc_modes = [(''dark'', exampleDark), (''dark_dimmed'', exampleDim)],
      mc_finalized = False\<rparr>"



section \<open>Auxiliary lemmas\<close>

subsection \<open>Names\<close>

lemma splitDot_not_Nil: "splitDot s \<noteq> []"
  by (induction s) (auto split: list.splits)

lemma foldl_append_dots:
  "foldl (\<lambda>acc s. acc @ CHR ''.'' # s) x rest = x @ concat (map ((#) CHR ''.'') rest)"
  by (induction rest arbitrary: x) auto

lemma getFullName_Cons:
  "getFullName p (a # rest) = p @ CHR ''-'' # a @ concat (map ((#) CHR ''.'') rest)"
  by (simp add: getFullName_def foldl_append_dots)

lemma joinDots_splitDot: "joinDots (splitDot s) = s"
proof (induction s)
  case Nil
  show ?case by simp
next
  case (Cons c cs)
  then show ?case
    by (cases "splitDot cs") (auto simp: splitDot_not_Nil)
qed

lemma getFullName_splitDot: "getFullName p (splitDot n) = p @ ''-'' @ n"
proof (cases "splitDot n")
  case Nil
  then show ?thesis by (simp add: splitDot_not_Nil)
next
  case (Cons a rest)
  have "joinDots (splitDot n) = n" by (rule joinDots_splitDot)
  with Cons show ?thesis by (simp add: getFullName_Cons)
qed

subsection \<open>Lookup\<close>

lemma getByName_None_iff: "getByName vars n = None \<longleftrightarrow> n \<notin> set (variableNames vars)"
  by (simp add: getByName_def variableNames_def map_of_eq_None_iff)

lemma existsInCollection_names:
  "existsInCollection collection n \<longleftrightarrow>
     (\<exists>vars \<in> set (map snd (mc_modes collection)).
        mc_prefix collection @ ''-'' @ n \<in> set (variableNames vars))"
  by (simp add: existsInCollection_def list_ex_iff getFullName_splitDot getByName_None_iff
      del: set_map)

subsection \<open>Splitting a joined path\<close>

lemma splitDot_no_dot_append:
  "CHR ''.'' \<notin> set a \<Longrightarrow> splitDot (a @ s) = (a @ hd (splitDot s)) # tl (splitDot s)"
  by (induction a) (auto simp: splitDot_not_Nil split: list.splits)

lemma splitDot_no_dot: "CHR ''.'' \<notin> set a \<Longrightarrow> splitDot a = [a]"
  using splitDot_no_dot_append [of a "[]"] by simp

lemma splitDot_joinDots:
  "path \<noteq> [] \<Longrightarrow> list_all (\<lambda>s. CHR ''.'' \<notin> set s) path \<Longrightarrow> splitDot (joinDots path) = path"
proof (induction path)
  case Nil
  then show ?case by simp
next
  case (Cons a rest)
  show ?case
  proof (cases rest)
    case Nil
    with Cons.prems show ?thesis by (simp add: splitDot_no_dot)
  next
    case (Cons b rest')
    with Cons.prems Cons.IH have "splitDot (joinDots rest) = rest" by simp
    moreover have "joinDots (a # rest) = a @ CHR ''.'' # joinDots rest"
      using Cons by simp
    ultimately show ?thesis
      using Cons.prems by (simp add: splitDot_no_dot_append del: joinDots.simps)
  qed
qed

lemma getFullName_joinDots: "path \<noteq> [] \<Longrightarrow> getFullName p path = p @ ''-'' @ joinDots path"
  by (cases path) (simp_all add: getFullName_Cons)

lemma prefix_sep_inj:
  "c \<notin> set p \<Longrightarrow> c \<notin> set q \<Longrightarrow> p @ c # x = q @ c # y \<Longrightarrow> p = q \<and> x = y"
proof (induction p arbitrary: q)
  case Nil
  then show ?case by (cases q) auto
next
  case (Cons a p)
  then show ?case by (cases q) auto
qed

lemma getFullName_inj:
  assumes "wellFormedName p1 path1" "wellFormedName p2 path2"
    and "getFullName p1 path1 = getFullName p2 path2"
  shows "p1 = p2 \<and> path1 = path2"
proof -
  from assms have eq: "p1 @ CHR ''-'' # joinDots path1 = p2 @ CHR ''-'' # joinDots path2"
    by (simp add: wellFormedName_def getFullName_joinDots)
  from assms have "CHR ''-'' \<notin> set p1" "CHR ''-'' \<notin> set p2"
    by (simp_all add: wellFormedName_def)
  then have "p1 = p2 \<and> joinDots path1 = joinDots path2"
    using eq by (rule prefix_sep_inj)
  then have p: "p1 = p2" and j: "joinDots path1 = joinDots path2"
    by blast+
  from assms have s1: "splitDot (joinDots path1) = path1"
    and s2: "splitDot (joinDots path2) = path2"
    by (simp_all add: wellFormedName_def splitDot_joinDots)
  from j have "splitDot (joinDots path1) = splitDot (joinDots path2)"
    by (rule arg_cong)
  then have "path1 = path2"
    unfolding s1 s2 .
  with p show ?thesis ..
qed

subsection \<open>The ledger validator\<close>

lemma forEach_targets:
  "forEachReplacementVar replacement fn = concat (map fn (replacementTargets replacement))"
  by (cases replacement) (simp_all add: forEachReplacementVar_def)

lemma check_not_stale: "filter isStaleDeprecation (checkReplacementVar original c f m t) = []"
  by (cases t) (simp_all add: checkReplacementVar_def)

lemma check_not_removal: "filter isInvalidRemoval (checkReplacementVar original c f m t) = []"
  by (cases t) (simp_all add: checkReplacementVar_def)

lemma filter_concat_map_Nil: "(\<And>x. filter P (g x) = []) \<Longrightarrow> filter P (concat (map g xs)) = []"
  by (induction xs) simp_all

text \<open>Without the two conditions on the separators the names of distinct pairs
  coincide.\<close>

lemma fullName_not_injective_unrestricted:
  "getFullName ''a-b'' [''c''] = getFullName ''a'' [''b-c'']
   \<and> getFullName ''p'' [''a.b''] = getFullName ''p'' [''a'', ''b'']"
  by (simp add: getFullName_def)

lemma entryErrors_targets:
  "entryErrors validateVar c f m (original, replacement) =
     validateVar original c f
     @ concat (map (checkReplacementVar original c f m) (replacementTargets replacement))"
  by (simp add: entryErrors_def forEach_targets)

lemma in_entryErrors:
  "e \<in> set (entryErrors validateVar c f m entry) \<longleftrightarrow>
     e \<in> set (validateVar (fst entry) c f)
     \<or> (\<exists>t \<in> set (replacementTargets (snd entry)).
           e \<in> set (checkReplacementVar (fst entry) c f m t))"
  by (cases entry) (simp add: entryErrors_targets)

lemma in_validations:
  "e \<in> set (validations validateVar c f m) \<longleftrightarrow>
     (\<exists>entry \<in> set m.
        e \<in> set (validateVar (fst entry) c f)
        \<or> (\<exists>t \<in> set (replacementTargets (snd entry)).
              e \<in> set (checkReplacementVar (fst entry) c f m t)))"
  by (simp add: validations_def in_entryErrors)

lemma chained_in_check:
  "DeprecatedReplacement original' t' f' \<in> set (checkReplacementVar original c f m t) \<longleftrightarrow>
     original' = original \<and> t' = t \<and> f' = f
     \<and> (\<exists>s. t = JStr s \<and> existsInCollection c s \<and> s \<in> set (map fst m))"
  by (cases t) (auto simp: checkReplacementVar_def)

lemma undefined_in_check:
  "UndefinedReplacement original' t' f' \<in> set (checkReplacementVar original c f m t) \<longleftrightarrow>
     original' = original \<and> t' = t \<and> f' = f
     \<and> (\<exists>s. t = JStr s \<and> \<not> existsInCollection c s)"
  by (cases t) (auto simp: checkReplacementVar_def)

lemma mode_not_replacement_error:
  assumes "validateVar = validateDeprecatedVar \<or> validateVar = validateRemovedVar"
  shows "DeprecatedReplacement original' t f' \<notin> set (validateVar original c f)"
  using assms by (auto simp: validateDeprecatedVar_def validateRemovedVar_def)

lemma stale_in_entry:
  "length (filter isStaleDeprecation
     (entryErrors validateDeprecatedVar c f m (original, replacement))) =
   (if existsInCollection c original then 0 else 1)"
proof -
  have "filter isStaleDeprecation
          (forEachReplacementVar replacement (checkReplacementVar original c f m)) = []"
    unfolding forEach_targets by (rule filter_concat_map_Nil) (rule check_not_stale)
  then show ?thesis
    by (simp add: validateDeprecatedVar_def entryErrors_def)
qed

lemma removal_in_entry:
  "length (filter isInvalidRemoval
     (entryErrors validateRemovedVar c f m (original, replacement))) =
   (if existsInCollection c original then 1 else 0)"
proof -
  have "filter isInvalidRemoval
          (forEachReplacementVar replacement (checkReplacementVar original c f m)) = []"
    unfolding forEach_targets by (rule filter_concat_map_Nil) (rule check_not_removal)
  then show ?thesis
    by (simp add: validateRemovedVar_def entryErrors_def)
qed

lemma stale_in_entries:
  "length (filter isStaleDeprecation
     (concat (map (entryErrors validateDeprecatedVar c f m) entries))) =
   length (filter (\<lambda>entry. \<not> existsInCollection c (fst entry)) entries)"
proof (induction entries)
  case Nil
  show ?case by simp
next
  case (Cons entry entries)
  obtain original replacement where "entry = (original, replacement)" by (cases entry)
  with Cons show ?case
    by (simp add: stale_in_entry)
qed

lemma removal_in_entries:
  "length (filter isInvalidRemoval
     (concat (map (entryErrors validateRemovedVar c f m) entries))) =
   length (filter (\<lambda>entry. existsInCollection c (fst entry)) entries)"
proof (induction entries)
  case Nil
  show ?case by simp
next
  case (Cons entry entries)
  obtain original replacement where "entry = (original, replacement)" by (cases entry)
  with Cons show ?case
    by (simp add: removal_in_entry)
qed


subsection \<open>The walk as a pass over the leaves\<close>

lemma addLeaves_append:
  "addLeaves vars (xs @ ys) =
     (case addLeaves vars xs of Inl e \<Rightarrow> Inl e | Inr vars' \<Rightarrow> addLeaves vars' ys)"
  by (induction xs arbitrary: vars) (auto split: sum.splits)

lemma walk_as_leaves:
  "addValue vars path t = addLeaves vars (leaves path t)"
  "addEntries vars path kvs = addLeaves vars (entryLeaves path kvs)"
proof (induction vars path t and vars path kvs rule: addValue_addEntries.induct)
  case (6 vars path k t rest)
  then show ?case
    by (simp add: addLeaves_append split: sum.splits)
qed (simp_all split: sum.splits)

lemma leaves_not_nested:
  fixes t :: "('v, 'f) token" and kvs :: "(string \<times> ('v, 'f) token) list"
  shows "\<forall>l \<in> set (leaves path t). \<not> isNested (snd l)"
    and "\<forall>l \<in> set (entryLeaves path' kvs). \<not> isNested (snd l)"
  by (induction path t and path' kvs rule: leaves_entryLeaves.induct) auto

lemma mapSet_fresh: "k \<notin> set (map fst kvs) \<Longrightarrow> mapSet kvs k v = kvs @ [(k, v)]"
  by (induction kvs k v rule: mapSet.induct) auto

lemma set_fst_mapSet: "set (map fst (mapSet kvs k v)) = insert k (set (map fst kvs))"
  by (induction kvs k v rule: mapSet.induct) (simp_all add: insert_commute)

lemma addVariable_fields:
  "vc_prefix (addVariable vars path v) = vc_prefix vars"
  "vc_name (addVariable vars path v) = vc_name vars"
  "set (variableNames (addVariable vars path v)) =
     insert (getFullName (vc_prefix vars) path) (set (variableNames vars))"
  by (simp_all add: addVariable_def Let_def variableNames_def set_fst_mapSet del: set_map)

lemma referencesDefined_cong:
  "set d = set d' \<Longrightarrow> referencesDefined p d ls = referencesDefined p d' ls"
proof (induction ls arbitrary: d d')
  case Nil
  show ?case by simp
next
  case (Cons l ls)
  obtain path t where l: "l = (path, t)" by (cases l)
  have "referencesDefined p (d @ [getFullName p path]) ls
      = referencesDefined p (d' @ [getFullName p path]) ls"
    by (rule Cons.IH) (simp add: Cons.prems)
  then show ?case
    using Cons.prems by (simp add: l split: token.splits)
qed

lemma in_variableNames_iff: "n \<in> set (variableNames vars) \<longleftrightarrow> getByName vars n \<noteq> None"
  by (simp add: getByName_None_iff)

lemma addValue_leaf_cases:
  assumes "\<not> isNested t"
  shows "(\<exists>vars'. addValue vars path t = Inr vars') \<longleftrightarrow>
           (case t of
              Reference n \<Rightarrow>
                getFullName (vc_prefix vars) (splitDot n) \<in> set (variableNames vars)
            | _ \<Rightarrow> True)"
  using assms
  by (cases t)
    (auto simp: resolveReference_def in_variableNames_iff split: option.splits)

lemma addValue_leaf_result:
  assumes "\<not> isNested t" "addValue vars path t = Inr vars'"
  shows "\<exists>v. vars' = addVariable vars path v"
  using assms by (cases t) (auto split: sum.splits)

lemma addLeaves_succeeds_iff:
  assumes "\<forall>l \<in> set ls. \<not> isNested (snd l)"
  shows "(\<exists>vars'. addLeaves vars ls = Inr vars') \<longleftrightarrow>
           referencesDefined (vc_prefix vars) (variableNames vars) ls"
  using assms
proof (induction ls arbitrary: vars)
  case Nil
  show ?case by simp
next
  case (Cons l ls)
  obtain path t where l: "l = (path, t)" by (cases l)
  from Cons.prems l have leaf: "\<not> isNested t" and rest: "\<forall>l \<in> set ls. \<not> isNested (snd l)"
    by simp_all
  show ?case
  proof (cases "addValue vars path t")
    case (Inl e)
    then have "\<not> (\<exists>vars'. addValue vars path t = Inr vars')" by simp
    with addValue_leaf_cases [OF leaf, of vars path] Inl show ?thesis
      by (simp add: l)
  next
    case (Inr vars1)
    then have ok: "\<exists>vars'. addValue vars path t = Inr vars'" by blast
    from addValue_leaf_result [OF leaf Inr] obtain v where v: "vars1 = addVariable vars path v" ..
    have "referencesDefined (vc_prefix vars1) (variableNames vars1) ls
        = referencesDefined (vc_prefix vars) (variableNames vars @ [getFullName (vc_prefix vars) path]) ls"
      unfolding v addVariable_fields(1)
      by (rule referencesDefined_cong) (simp add: addVariable_fields del: set_map)
    with Cons.IH [OF rest, of vars1] addValue_leaf_cases [OF leaf, of vars path] ok Inr
    show ?thesis
      by (simp add: l)
  qed
qed

lemma addLeaves_error_mode:
  assumes "\<forall>l \<in> set ls. \<not> isNested (snd l)" "addLeaves vars ls = Inl e"
  shows "\<exists>n. e = UndefinedReference n (vc_name vars)"
  using assms
proof (induction ls arbitrary: vars)
  case Nil
  then show ?case by simp
next
  case (Cons l ls)
  obtain path t where l: "l = (path, t)" by (cases l)
  from Cons.prems l have leaf: "\<not> isNested t" and rest: "\<forall>l \<in> set ls. \<not> isNested (snd l)"
    by simp_all
  show ?case
  proof (cases "addValue vars path t")
    case (Inl e')
    with Cons.prems(2) l have "e' = e" by simp
    with Inl leaf show ?thesis
      by (cases t) (auto simp: resolveReference_def split: sum.splits option.splits)
  next
    case (Inr vars1)
    from addValue_leaf_result [OF leaf Inr] obtain v where v: "vars1 = addVariable vars path v" ..
    from Cons.prems(2) l Inr have "addLeaves vars1 ls = Inl e" by simp
    from Cons.IH [OF rest this] show ?thesis
      by (simp add: v addVariable_fields)
  qed
qed

lemma referencesDefined_at:
  assumes "referencesDefined p d (before @ (path, Reference n) # after)"
  shows "getFullName p (splitDot n)
    \<in> set d \<union> set (map (\<lambda>l. getFullName p (fst l)) before)"
  using assms
proof (induction before arbitrary: d)
  case Nil
  then show ?case by simp
next
  case (Cons l before)
  obtain path' t where l: "l = (path', t)" by (cases l)
  from Cons.prems have "referencesDefined p (d @ [getFullName p path'])
      (before @ (path, Reference n) # after)"
    by (simp add: l)
  from Cons.IH [OF this] show ?case
    by (auto simp: l)
qed

lemma forward_reference_fails:
  assumes "entryLeaves [] tokens = before @ (path, Reference n) # after"
    and "getFullName (vc_prefix vars) (splitDot n)
      \<notin> set (variableNames vars) \<union> set (map (\<lambda>l. getFullName (vc_prefix vars) (fst l)) before)"
  shows "\<exists>m. addFromObject vars tokens = Inl (UndefinedReference m (vc_name vars))"
proof (cases "addFromObject vars tokens")
  case (Inl e)
  then have "addLeaves vars (entryLeaves [] tokens) = Inl e"
    by (simp add: addFromObject_def walk_as_leaves)
  from addLeaves_error_mode [OF leaves_not_nested(2) this] Inl show ?thesis
    by auto
next
  case (Inr vars')
  then have "\<exists>vars'. addLeaves vars (entryLeaves [] tokens) = Inr vars'"
    by (simp add: addFromObject_def walk_as_leaves)
  then have "referencesDefined (vc_prefix vars) (variableNames vars) (entryLeaves [] tokens)"
    using addLeaves_succeeds_iff [OF leaves_not_nested(2)] by blast
  then have "getFullName (vc_prefix vars) (splitDot n)
      \<in> set (variableNames vars) \<union> set (map (\<lambda>l. getFullName (vc_prefix vars) (fst l)) before)"
    unfolding assms(1) by (rule referencesDefined_at)
  with assms(2) show ?thesis by contradiction
qed

subsection \<open>Rebuilding the tree\<close>

lemma map_of_mapSet_same: "map_of (mapSet kvs k v) k = Some v"
  by (induction kvs k v rule: mapSet.induct) simp_all

lemma getByName_addVariable:
  "getByName (addVariable vars path v) (getFullName (vc_prefix vars) path) =
     Some \<lparr>var_name = getFullName (vc_prefix vars) path, var_value = v, var_path = path\<rparr>"
  by (simp add: getByName_def addVariable_def Let_def map_of_mapSet_same)

lemma rebuild_simps:
  "rebuild props [] = props"
  "rebuild props (l # ls) = rebuild (setPath props (fst l) (snd l)) ls"
  "rebuild props (xs @ ys) = rebuild (rebuild props xs) ys"
  by (simp_all add: rebuild_def)

lemma tree_rebuild:
  "tree vars = Obj (rebuild [] (map (\<lambda>x. (var_path (snd x), var_value (snd x))) (vc_data vars)))"
  by (simp add: tree_def rebuild_def foldl_map)

lemma map_of_fresh_append:
  "k \<notin> set (map fst acc) \<Longrightarrow> map_of (acc @ [(k, v)]) k = Some v"
  by (simp add: map_of_eq_None_iff [THEN iffD2] map_add_def)

lemma mapSet_last:
  "k \<notin> set (map fst acc) \<Longrightarrow> mapSet (acc @ [(k, v)]) k w = acc @ [(k, w)]"
  by (induction acc) auto

lemma setPath_into_last:
  assumes "k \<notin> set (map fst acc)" "p \<noteq> []"
  shows "setPath (acc @ [(k, Obj sub)]) (k # p) v = acc @ [(k, Obj (setPath sub p v))]"
proof -
  from assms(2) obtain k' ks where p: "p = k' # ks" by (cases p) auto
  show ?thesis
    using assms(1) by (simp add: p map_of_fresh_append mapSet_last del: set_map map_of_append)
qed

lemma setPath_new_key:
  assumes "k \<notin> set (map fst acc)" "p \<noteq> []"
  shows "setPath acc (k # p) v = acc @ [(k, Obj (setPath [] p v))]"
proof -
  from assms(2) obtain k' ks where p: "p = k' # ks" by (cases p) auto
  from assms(1) have "map_of acc k = None"
    by (simp add: map_of_eq_None_iff)
  with assms(1) show ?thesis
    by (simp add: p mapSet_fresh del: set_map)
qed

lemma rebuild_into_last:
  assumes "k \<notin> set (map fst acc)" "\<forall>l \<in> set ls. fst l \<noteq> []"
  shows "rebuild (acc @ [(k, Obj sub)]) (map (\<lambda>l. (k # fst l, snd l)) ls)
       = acc @ [(k, Obj (rebuild sub ls))]"
  using assms(2)
proof (induction ls arbitrary: sub)
  case Nil
  show ?case by (simp add: rebuild_simps)
next
  case (Cons l ls)
  then show ?case
    using assms(1) by (simp add: rebuild_simps setPath_into_last del: set_map)
qed

lemma rebuild_under_key:
  assumes "k \<notin> set (map fst acc)" "\<forall>l \<in> set ls. fst l \<noteq> []" "ls \<noteq> []"
  shows "rebuild acc (map (\<lambda>l. (k # fst l, snd l)) ls) = acc @ [(k, Obj (rebuild [] ls))]"
proof -
  from assms(3) obtain l ls' where ls: "ls = l # ls'" by (cases ls) auto
  with assms(2) have l: "fst l \<noteq> []" and ls': "\<forall>l \<in> set ls'. fst l \<noteq> []" by simp_all
  have "rebuild acc (map (\<lambda>l. (k # fst l, snd l)) ls)
      = rebuild (acc @ [(k, Obj (setPath [] (fst l) (snd l)))]) (map (\<lambda>l. (k # fst l, snd l)) ls')"
    by (simp add: ls rebuild_simps setPath_new_key [OF assms(1) l])
  also have "\<dots> = acc @ [(k, Obj (rebuild (setPath [] (fst l) (snd l)) ls'))]"
    by (rule rebuild_into_last [OF assms(1) ls'])
  finally show ?thesis
    by (simp add: ls rebuild_simps)
qed

lemma leaves_shift:
  fixes t :: "('v, 'f) token" and kvs :: "(string \<times> ('v, 'f) token) list"
  shows "leaves (q @ path) t = map (\<lambda>l. (q @ fst l, snd l)) (leaves path t)"
    and "entryLeaves (q @ path') kvs = map (\<lambda>l. (q @ fst l, snd l)) (entryLeaves path' kvs)"
proof (induction path t and path' kvs rule: leaves_entryLeaves.induct)
  case (6 path k t rest)
  then show ?case by (simp flip: append_assoc)
qed simp_all

lemma entryLeaves_under_key:
  "entryLeaves [k] kvs = map (\<lambda>l. (k # fst l, snd l)) (entryLeaves [] kvs)"
  using leaves_shift(2) [of "[k]" "[]" kvs] by simp

lemma leaf_paths_not_Nil:
  fixes t :: "('v, 'f) token" and kvs :: "(string \<times> ('v, 'f) token) list"
  shows "path \<noteq> [] \<longrightarrow> (\<forall>l \<in> set (leaves path t). fst l \<noteq> [])"
    and "\<forall>l \<in> set (entryLeaves path' kvs). fst l \<noteq> []"
  by (induction path t and path' kvs rule: leaves_entryLeaves.induct) auto

lemma proper_has_leaves:
  fixes t :: "('v, 'f) token" and kvs :: "(string \<times> ('v, 'f) token) list"
  shows "properValue t \<longrightarrow> leaves path t \<noteq> []"
    and "properEntries kvs \<longrightarrow> kvs \<noteq> [] \<longrightarrow> entryLeaves path' kvs \<noteq> []"
  by (induction path t and path' kvs rule: leaves_entryLeaves.induct) auto

lemma valued_simps:
  "valued vars [] = []"
  "valued vars (l # ls) = (fst l, the (leafValue vars (snd l))) # valued vars ls"
  "valued vars (xs @ ys) = valued vars xs @ valued vars ys"
  "valued vars (map (\<lambda>l. (k # fst l, snd l)) ls) = map (\<lambda>l. (k # fst l, snd l)) (valued vars ls)"
  by (simp_all add: valued_def)

lemma valued_paths: "map fst (valued vars ls) = map fst ls" "valued vars ls = [] \<longleftrightarrow> ls = []"
  by (simp_all add: valued_def)

lemma rebuild_resolved:
  fixes t :: "('v, 'f) token" and kvs :: "(string \<times> ('v, 'f) token) list"
  shows "\<forall>k acc x. properValue t \<longrightarrow> resolvedValue vars t = Some x \<longrightarrow> k \<notin> set (map fst acc)
          \<longrightarrow> rebuild acc (valued vars (leaves [k] t)) = acc @ [(k, x)]"
    and "\<forall>acc xs. properEntries kvs \<longrightarrow> resolvedEntries vars' kvs = Some xs
          \<longrightarrow> set (map fst acc) \<inter> set (map fst kvs) = {}
          \<longrightarrow> rebuild acc (valued vars' (entryLeaves [] kvs)) = acc @ xs"
proof (induction vars t and vars' kvs rule: resolvedValue_resolvedEntries.induct)
  case (1 vars v)
  show ?case by (simp add: valued_simps rebuild_simps mapSet_fresh del: set_map)
next
  case (2 vars f)
  show ?case by (simp add: valued_simps rebuild_simps mapSet_fresh del: set_map)
next
  case (3 vars n)
  show ?case
    by (auto simp: valued_simps rebuild_simps mapSet_fresh simp del: set_map split: sum.splits)
next
  case (4 vars kvs)
  show ?case
  proof (intro allI impI)
    fix k :: string and acc :: "(string \<times> ('v, 'f) obj) list" and x :: "('v, 'f) obj"
    assume proper: "properValue (Nested kvs)"
      and res: "resolvedValue vars (Nested kvs) = Some x"
      and fresh: "k \<notin> set (map fst acc)"
    from res obtain xs where xs: "resolvedEntries vars kvs = Some xs" and x: "x = Obj xs"
      by auto
    from proper have ne: "kvs \<noteq> []" and pe: "properEntries kvs" by simp_all
    have paths: "\<forall>l \<in> set (valued vars (entryLeaves [] kvs)). fst l \<noteq> []"
      using leaf_paths_not_Nil(2) [of "[]" kvs] by (simp add: valued_def)
    have nonempty: "valued vars (entryLeaves [] kvs) \<noteq> []"
      using proper_has_leaves(2) [of kvs "[]"] ne pe by (simp add: valued_paths)
    have "rebuild [] (valued vars (entryLeaves [] kvs)) = [] @ xs"
      using 4 pe xs by simp
    then show "rebuild acc (valued vars (leaves [k] (Nested kvs))) = acc @ [(k, x)]"
      by (simp add: entryLeaves_under_key valued_simps x
          rebuild_under_key [OF fresh paths nonempty])
  qed
next
  case (5 vars)
  show ?case by (simp add: valued_simps rebuild_simps)
next
  case (6 vars k t rest)
  show ?case
  proof (intro allI impI)
    fix acc xs :: "(string \<times> ('v, 'f) obj) list"
    assume proper: "properEntries ((k, t) # rest)"
      and res: "resolvedEntries vars ((k, t) # rest) = Some xs"
      and disj: "set (map fst acc) \<inter> set (map fst ((k, t) # rest)) = {}"
    from res obtain x xs' where x: "resolvedValue vars t = Some x"
      and xs': "resolvedEntries vars rest = Some xs'" and xs: "xs = (k, x) # xs'"
      by (auto split: option.splits)
    from proper have pt: "properValue t" and pr: "properEntries rest"
      and k: "k \<notin> set (map fst rest)" by simp_all
    from disj have fresh: "k \<notin> set (map fst acc)" by auto
    have first: "rebuild acc (valued vars (leaves [k] t)) = acc @ [(k, x)]"
      using "6.IH"(1) pt x fresh by blast
    have "set (map fst (acc @ [(k, x)])) \<inter> set (map fst rest) = {}"
      using disj k by auto
    then have "rebuild (acc @ [(k, x)]) (valued vars (entryLeaves [] rest)) = (acc @ [(k, x)]) @ xs'"
      using "6.IH"(2) [OF x] pr xs' by blast
    with first show "rebuild acc (valued vars (entryLeaves [] ((k, t) # rest))) = acc @ xs"
      by (simp add: valued_simps rebuild_simps xs)
  qed
qed

subsection \<open>The data of a collection after a walk\<close>

lemma resolved_defined:
  fixes t :: "('v, 'f) token" and kvs :: "(string \<times> ('v, 'f) token) list"
  shows "(\<forall>l \<in> set (leaves path t). leafValue vars (snd l) \<noteq> None)
          \<longrightarrow> resolvedValue vars t \<noteq> None"
    and "(\<forall>l \<in> set (entryLeaves path' kvs). leafValue vars (snd l) \<noteq> None)
          \<longrightarrow> resolvedEntries vars kvs \<noteq> None"
  by (induction path t and path' kvs rule: leaves_entryLeaves.induct)
    (auto split: sum.splits)

lemma leafValue_mono:
  assumes "vc_prefix vars = vc_prefix vars0" "vc_data vars = vc_data vars0 @ added"
    and "leafValue vars0 t = Some v"
  shows "leafValue vars t = Some v"
  using assms
  by (cases t)
    (auto simp: resolveReference_def getByName_def map_add_def split: option.splits sum.splits)

lemma addValue_leaf_data:
  assumes "\<not> isNested t" "addValue vars0 path t = Inr vars1"
  shows "\<exists>v. leafValue vars0 t = Some v \<and> vars1 = addVariable vars0 path v"
  using assms by (cases t) (auto split: sum.splits)

lemma addVariable_fresh_data:
  assumes "getFullName (vc_prefix vars0) path \<notin> set (variableNames vars0)"
  shows "vc_data (addVariable vars0 path v) =
     vc_data vars0 @ [(getFullName (vc_prefix vars0) path,
       \<lparr>var_name = getFullName (vc_prefix vars0) path, var_value = v, var_path = path\<rparr>)]"
  using assms by (simp add: addVariable_def Let_def variableNames_def mapSet_fresh del: set_map)

lemma addLeaves_data:
  assumes "addLeaves vars0 ls = Inr vars"
    and "\<forall>l \<in> set ls. \<not> isNested (snd l)"
    and "distinct (map (\<lambda>l. getFullName (vc_prefix vars0) (fst l)) ls)"
    and "\<forall>l \<in> set ls. getFullName (vc_prefix vars0) (fst l) \<notin> set (variableNames vars0)"
  shows "vc_prefix vars = vc_prefix vars0
    \<and> vc_data vars = vc_data vars0 @
        map (\<lambda>l. (getFullName (vc_prefix vars0) (fst l),
                  \<lparr>var_name = getFullName (vc_prefix vars0) (fst l),
                   var_value = the (leafValue vars (snd l)), var_path = fst l\<rparr>)) ls
    \<and> (\<forall>l \<in> set ls. leafValue vars (snd l) \<noteq> None)"
  using assms
proof (induction ls arbitrary: vars0)
  case Nil
  then show ?case by simp
next
  case (Cons l ls)
  obtain path t where l: "l = (path, t)" by (cases l)
  let ?nm = "getFullName (vc_prefix vars0) path"
  from Cons.prems(2) l have leaf: "\<not> isNested t" and rest: "\<forall>l \<in> set ls. \<not> isNested (snd l)"
    by simp_all
  from Cons.prems(1) l obtain vars1 where step: "addValue vars0 path t = Inr vars1"
    and cont: "addLeaves vars1 ls = Inr vars"
    by (auto split: sum.splits)
  from addValue_leaf_data [OF leaf step] obtain v where v: "leafValue vars0 t = Some v"
    and vars1: "vars1 = addVariable vars0 path v" by blast
  from Cons.prems(4) l have fresh: "?nm \<notin> set (variableNames vars0)" by simp
  have prefix1: "vc_prefix vars1 = vc_prefix vars0"
    by (simp add: vars1 addVariable_fields)
  have data1: "vc_data vars1 = vc_data vars0 @
      [(?nm, \<lparr>var_name = ?nm, var_value = v, var_path = path\<rparr>)]"
    unfolding vars1 by (rule addVariable_fresh_data [OF fresh])
  have dist: "distinct (map (\<lambda>l. getFullName (vc_prefix vars1) (fst l)) ls)"
    using Cons.prems(3) by (simp add: prefix1)
  have fresh1: "\<forall>l \<in> set ls. getFullName (vc_prefix vars1) (fst l) \<notin> set (variableNames vars1)"
  proof
    fix l'
    assume l': "l' \<in> set ls"
    from Cons.prems(3) l have "?nm \<notin> (\<lambda>l. getFullName (vc_prefix vars0) (fst l)) ` set ls"
      by simp
    with l' have "getFullName (vc_prefix vars0) (fst l') \<noteq> ?nm"
      by (metis imageI)
    moreover from Cons.prems(4) l'
    have "getFullName (vc_prefix vars0) (fst l') \<notin> set (variableNames vars0)"
      by simp
    ultimately show "getFullName (vc_prefix vars1) (fst l') \<notin> set (variableNames vars1)"
      by (simp add: prefix1 vars1 addVariable_fields)
  qed
  from Cons.IH [OF cont rest dist fresh1]
  have prefix: "vc_prefix vars = vc_prefix vars1"
    and data: "vc_data vars = vc_data vars1 @
        map (\<lambda>l. (getFullName (vc_prefix vars1) (fst l),
                  \<lparr>var_name = getFullName (vc_prefix vars1) (fst l),
                   var_value = the (leafValue vars (snd l)), var_path = fst l\<rparr>)) ls"
    and vals: "\<forall>l \<in> set ls. leafValue vars (snd l) \<noteq> None"
    by simp_all
  have grown: "vc_data vars = vc_data vars0 @
      ([(?nm, \<lparr>var_name = ?nm, var_value = v, var_path = path\<rparr>)] @
        map (\<lambda>l. (getFullName (vc_prefix vars1) (fst l),
                  \<lparr>var_name = getFullName (vc_prefix vars1) (fst l),
                   var_value = the (leafValue vars (snd l)), var_path = fst l\<rparr>)) ls)"
    by (simp add: data data1)
  have "vc_prefix vars = vc_prefix vars0"
    using prefix prefix1 by simp
  then have final: "leafValue vars t = Some v"
    using grown v by (rule leafValue_mono)
  show ?case
    using prefix prefix1 data data1 vals final by (simp add: l)
qed

text \<open>An empty nested mapping leaves no variable behind, and two leaves with one name
  leave one: neither tree is rebuilt.\<close>

lemma empty_group_not_rebuilt:
  "addFromObject (newVariableCollection ''light'' ''colors'')
     [(''scale'', Nested ([] :: (string \<times> (string, unit) token) list))]
     = Inr (newVariableCollection ''light'' ''colors'')
   \<and> tree (newVariableCollection ''light'' ''colors'' :: (string, unit) VariableCollection) = Obj []"
  by (simp add: addFromObject_def newVariableCollection_def tree_def)

lemma clashing_names_not_rebuilt:
  "tree (projr (addFromObject (newVariableCollection ''light'' ''colors'')
     [(''a.b'', Literal ''1''), (''a'', Nested [(''b'', Literal (''2'' :: string))])]
       :: build_error + (string, unit) VariableCollection))
   = Obj [(''a'', Obj [(''b'', Leaf (Scalar ''2''))])]"
  by (simp add: addFromObject_def addVariable_def newVariableCollection_def tree_def
      getFullName_def Let_def)

subsection \<open>Validation of a Mode Collection\<close>

lemma finalize_modes: "mc_modes (finalize collection) = mc_modes collection"
  by (simp add: finalize_def)

lemma validate_errors_Union:
  "set (errors (validate collection)) =
     (\<Union>entry \<in> set (mc_modes collection). \<Union>other \<in> set (mc_modes collection).
        ModeParityViolation (fst entry) `
          {n \<in> set (variableNames (snd other)). n \<notin> set (variableNames (snd entry))})"
  by (simp add: validate_def Let_def missingIn_def getByName_None_iff split_beta)

lemma in_validate_errors:
  "e \<in> set (errors (validate collection)) \<longleftrightarrow>
     (\<exists>entry \<in> set (mc_modes collection). \<exists>other \<in> set (mc_modes collection).
        \<exists>n \<in> set (variableNames (snd other)).
          n \<notin> set (variableNames (snd entry)) \<and> e = ModeParityViolation (fst entry) n)"
  unfolding validate_errors_Union by auto

lemma validate_errors_set:
  "set (errors (validate collection)) =
     {ModeParityViolation m n | m vars n.
        (m, vars) \<in> set (mc_modes collection) \<and> n \<notin> set (variableNames vars)
        \<and> (\<exists>(m', vars') \<in> set (mc_modes collection). n \<in> set (variableNames vars'))}"
  (is "?L = ?R")
proof (rule set_eqI, rule iffI)
  fix e
  assume "e \<in> ?L"
  then obtain entry other n where entry: "entry \<in> set (mc_modes collection)"
    and other: "other \<in> set (mc_modes collection)"
    and n: "n \<in> set (variableNames (snd other))" "n \<notin> set (variableNames (snd entry))"
    and e: "e = ModeParityViolation (fst entry) n"
    unfolding in_validate_errors by blast
  have "\<exists>(m', vars') \<in> set (mc_modes collection). n \<in> set (variableNames vars')"
    by (rule bexI [of _ other]) (simp_all add: split_beta other n(1))
  moreover from entry have "(fst entry, snd entry) \<in> set (mc_modes collection)"
    by simp
  ultimately show "e \<in> ?R"
    using n(2) e by blast
next
  fix e
  assume "e \<in> ?R"
  then obtain m vars n m' vars' where "(m, vars) \<in> set (mc_modes collection)"
    "n \<notin> set (variableNames vars)" "(m', vars') \<in> set (mc_modes collection)"
    "n \<in> set (variableNames vars')" "e = ModeParityViolation m n"
    by blast
  then show "e \<in> ?L"
    unfolding in_validate_errors by force
qed

lemma validate_isValid: "isValid (validate collection) \<longleftrightarrow> errors (validate collection) = []"
  by (simp add: validate_def Let_def)

lemma validate_distinct: "distinct (errors (validate collection))"
  by (simp add: validate_def Let_def)


section \<open>The claims\<close>

subsection \<open>The replacement ledger validator\<close>

text \<open>
  C1. In deprecated mode the validator reports an error for a ledger entry if and only
  if the original name, after prefixing, does not exist in the Mode Collection, and then
  it reports exactly one such error for the entry: \<^verbatim>\<open>validateDeprecatedVar\<close> returns that
  one error or none, the errors of the whole entry hold one error of the class or none,
  the errors of the whole ledger hold as many errors of the class as it has entries whose
  original does not exist, and existing means that some mode holds the prefixed name.
\<close>

theorem deprecated_entry:
  "validateDeprecatedVar original collection inputFile =
     (if existsInCollection collection original then []
      else [CannotDeprecateUndefined original inputFile])
   \<and> length (filter isStaleDeprecation
        (entryErrors validateDeprecatedVar collection inputFile replacementMap
           (original, replacement))) =
     (if existsInCollection collection original then 0 else 1)
   \<and> length (filter isStaleDeprecation
        (validations validateDeprecatedVar collection inputFile replacementMap)) =
     length (filter (\<lambda>entry. \<not> existsInCollection collection (fst entry)) replacementMap)
   \<and> (existsInCollection collection original \<longleftrightarrow>
        (\<exists>vars \<in> set (map snd (mc_modes collection)).
           getFullName (mc_prefix collection) (splitDot original) \<in> set (variableNames vars)))"
  unfolding validations_def
  by (simp add: validateDeprecatedVar_def stale_in_entry stale_in_entries
      existsInCollection_names getFullName_splitDot del: set_map)

text \<open>
  The entry \<^verbatim>\<open>fg.old\<close>, which no mode defines, and the name \<^verbatim>\<open>fg.default\<close>, which
  the light mode defines.
\<close>

theorem deprecated_entry_witness:
  "validateDeprecatedVar ''fg.old'' exampleCollection ''deprecated.json'' =
     [CannotDeprecateUndefined ''fg.old'' ''deprecated.json'']
   \<and> length (filter isStaleDeprecation
        (entryErrors validateDeprecatedVar exampleCollection ''deprecated.json'' exampleLedger
           (''fg.old'', JStr ''bg.gone''))) = 1
   \<and> \<not> existsInCollection exampleCollection ''fg.old''
   \<and> validateDeprecatedVar ''fg.default'' exampleCollection ''deprecated.json'' = []"
  using deprecated_entry [of "''fg.old''" exampleCollection "''deprecated.json''" exampleLedger
      "JStr ''bg.gone''"]
    deprecated_entry [of "''fg.default''" exampleCollection "''deprecated.json''" exampleLedger
      "JNull"]
  by (simp add: exampleCollection_def exampleLight_def exampleDark_def existsInCollection_def getFullName_def
      getByName_def exampleLedger_def validateDeprecatedVar_def
      entryErrors_def forEachReplacementVar_def checkReplacementVar_def)

text \<open>
  C2. In removed mode the validator reports an error for a ledger entry if and only if
  the original name, after prefixing, does exist in the Mode Collection, and then it
  reports exactly one such error for the entry; the errors of the whole ledger hold as
  many errors of the class as it has entries whose original exists.
\<close>

theorem removed_entry:
  "validateRemovedVar original collection inputFile =
     (if existsInCollection collection original then [RemovedStillDefined original inputFile]
      else [])
   \<and> length (filter isInvalidRemoval
        (entryErrors validateRemovedVar collection inputFile replacementMap
           (original, replacement))) =
     (if existsInCollection collection original then 1 else 0)
   \<and> length (filter isInvalidRemoval
        (validations validateRemovedVar collection inputFile replacementMap)) =
     length (filter (\<lambda>entry. existsInCollection collection (fst entry)) replacementMap)
   \<and> (existsInCollection collection original \<longleftrightarrow>
        (\<exists>vars \<in> set (map snd (mc_modes collection)).
           getFullName (mc_prefix collection) (splitDot original) \<in> set (variableNames vars)))"
  unfolding validations_def
  by (simp add: validateRemovedVar_def removal_in_entry removal_in_entries
      existsInCollection_names getFullName_splitDot del: set_map)

text \<open>
  The entry \<^verbatim>\<open>fg.default\<close>, still defined in the light mode, and the name
  \<^verbatim>\<open>fg.old\<close>, defined nowhere.
\<close>

theorem removed_entry_witness:
  "validateRemovedVar ''fg.default'' exampleCollection ''removed.json'' =
     [RemovedStillDefined ''fg.default'' ''removed.json'']
   \<and> length (filter isInvalidRemoval
        (entryErrors validateRemovedVar exampleCollection ''removed.json'' exampleLedger
           (''fg.default'', JStr ''scale.black''))) = 1
   \<and> existsInCollection exampleCollection ''fg.default''
   \<and> validateRemovedVar ''fg.old'' exampleCollection ''removed.json'' = []"
  using removed_entry [of "''fg.default''" exampleCollection "''removed.json''" exampleLedger
      "JStr ''scale.black''"]
    removed_entry [of "''fg.old''" exampleCollection "''removed.json''" exampleLedger "JNull"]
  by (simp add: exampleCollection_def exampleLight_def exampleDark_def existsInCollection_def getFullName_def
      getByName_def exampleLedger_def validateRemovedVar_def
      entryErrors_def forEachReplacementVar_def checkReplacementVar_def)

text \<open>
  C3, as the code has it. The replacement value is unwrapped (null gives no target, an
  array gives each element, anything else gives itself), and each target is checked on
  its own, in the order: it is a string, it exists in the collection after prefixing, it
  is not a key of the ledger. The first condition that fails is reported, as one error,
  and the later conditions are not looked at; a target has no error exactly when it
  satisfies the three conditions.
\<close>

theorem target_first_violation:
  "replacementTargets JNull = []
   \<and> replacementTargets (JStr s) = [JStr s]
   \<and> replacementTargets (JArr rs) = rs
   \<and> entryErrors validateVar collection inputFile replacementMap (original, replacement) =
       validateVar original collection inputFile
       @ concat (map (checkReplacementVar original collection inputFile replacementMap)
           (replacementTargets replacement))
   \<and> (\<not> isString t \<longrightarrow>
        checkReplacementVar original collection inputFile replacementMap t =
          [InvalidReplacement original t inputFile])
   \<and> (\<not> existsInCollection collection u \<longrightarrow>
        checkReplacementVar original collection inputFile replacementMap (JStr u) =
          [UndefinedReplacement original (JStr u) inputFile])
   \<and> (existsInCollection collection d \<and> d \<in> set (map fst replacementMap) \<longrightarrow>
        checkReplacementVar original collection inputFile replacementMap (JStr d) =
          [DeprecatedReplacement original (JStr d) inputFile])
   \<and> (checkReplacementVar original collection inputFile replacementMap t = [] \<longleftrightarrow>
        (\<exists>n. t = JStr n \<and> existsInCollection collection n \<and> n \<notin> set (map fst replacementMap)))"
  by (cases t) (simp_all add: entryErrors_targets checkReplacementVar_def)

text \<open>
  Three targets of the entry \<^verbatim>\<open>fg.old\<close>: a number, an undefined name, and a defined
  name that is a key of the ledger.
\<close>

theorem target_first_violation_witness:
  "\<not> isString (JNum 3)
   \<and> checkReplacementVar ''fg.old'' exampleCollection ''deprecated.json'' exampleChain (JNum 3) =
       [InvalidReplacement ''fg.old'' (JNum 3) ''deprecated.json'']
   \<and> \<not> existsInCollection exampleCollection ''bg.gone''
   \<and> checkReplacementVar ''fg.old'' exampleCollection ''deprecated.json'' exampleChain
         (JStr ''bg.gone'') =
       [UndefinedReplacement ''fg.old'' (JStr ''bg.gone'') ''deprecated.json'']
   \<and> existsInCollection exampleCollection ''fg.default''
   \<and> ''fg.default'' \<in> set (map fst exampleChain)
   \<and> checkReplacementVar ''fg.old'' exampleCollection ''deprecated.json'' exampleChain
         (JStr ''fg.default'') =
       [DeprecatedReplacement ''fg.old'' (JStr ''fg.default'') ''deprecated.json'']
   \<and> entryErrors validateDeprecatedVar exampleCollection ''deprecated.json'' exampleChain
         (''fg.old'', JArr [JStr ''fg.default'', JStr ''scale.black'']) =
       [CannotDeprecateUndefined ''fg.old'' ''deprecated.json'',
        DeprecatedReplacement ''fg.old'' (JStr ''fg.default'') ''deprecated.json'']"
  using target_first_violation [of "''scale.black''" "[JStr ''fg.default'', JStr ''scale.black'']"
      validateDeprecatedVar exampleCollection "''deprecated.json''" exampleChain "''fg.old''"
      "JArr [JStr ''fg.default'', JStr ''scale.black'']" "JNum 3" "''bg.gone''" "''fg.default''"]
  by (simp add: exampleCollection_def exampleLight_def exampleDark_def existsInCollection_def getFullName_def
      getByName_def exampleChain_def validateDeprecatedVar_def
      entryErrors_def forEachReplacementVar_def checkReplacementVar_def)

text \<open>
  C3 as stated fails: in removed mode the target \<^verbatim>\<open>bg.gone\<close> of the entry
  \<^verbatim>\<open>fg.old\<close> is not in the collection and is a key of the ledger, so it violates two
  conditions, and the validation reports one error, for the first of them.
\<close>

theorem target_conditions_counterexample:
  "JStr ''bg.gone'' \<in> set (replacementTargets (JStr ''bg.gone''))
   \<and> (''fg.old'', JStr ''bg.gone'') \<in> set exampleLedger
   \<and> \<not> existsInCollection exampleCollection ''bg.gone''
   \<and> ''bg.gone'' \<in> set (map fst exampleLedger)
   \<and> validations validateRemovedVar exampleCollection ''removed.json'' exampleLedger =
       [UndefinedReplacement ''fg.old'' (JStr ''bg.gone'') ''removed.json'']"
  by (simp add: exampleCollection_def exampleLight_def exampleDark_def existsInCollection_def getFullName_def
      getByName_def exampleLedger_def validateRemovedVar_def
      validations_def entryErrors_def forEachReplacementVar_def checkReplacementVar_def)

text \<open>
  C4, as the code has it. In either mode, for an entry with a string target that is a
  key of the same ledger, the chained-replacement error is reported for that entry
  exactly when the target exists in the Mode Collection after prefixing, and the
  undefined-replacement error is reported for it exactly when the target does not.
\<close>

theorem chained_iff_target_exists:
  assumes "validateVar = validateDeprecatedVar \<or> validateVar = validateRemovedVar"
    and "(original, replacement) \<in> set replacementMap"
    and "JStr s \<in> set (replacementTargets replacement)"
    and "s \<in> set (map fst replacementMap)"
  shows "(DeprecatedReplacement original (JStr s) inputFile
            \<in> set (validations validateVar collection inputFile replacementMap)
          \<longleftrightarrow> existsInCollection collection s)
       \<and> (UndefinedReplacement original (JStr s) inputFile
            \<in> set (validations validateVar collection inputFile replacementMap)
          \<longleftrightarrow> \<not> existsInCollection collection s)"
proof -
  have mode: "\<And>o' e. DeprecatedReplacement original (JStr s) inputFile
      \<notin> set (validateVar o' collection inputFile)"
    using assms(1) by (rule mode_not_replacement_error)
  have mode': "\<And>o'. UndefinedReplacement original (JStr s) inputFile
      \<notin> set (validateVar o' collection inputFile)"
    using assms(1) by (auto simp: validateDeprecatedVar_def validateRemovedVar_def)
  show ?thesis
    using assms(2-4)
    by (force simp: in_validations chained_in_check undefined_in_check mode mode'
        simp del: set_map)
qed

text \<open>
  The entry \<^verbatim>\<open>fg.old\<close> points at the key \<^verbatim>\<open>fg.default\<close>, which the light mode
  defines: the chained-replacement error is reported.
\<close>

theorem chained_iff_target_exists_witness:
  "(validateDeprecatedVar = (validateDeprecatedVar
        :: string \<Rightarrow> (string, unit) ModeCollection \<Rightarrow> string \<Rightarrow> ledger_error list)
      \<or> validateDeprecatedVar = (validateRemovedVar
        :: string \<Rightarrow> (string, unit) ModeCollection \<Rightarrow> string \<Rightarrow> ledger_error list))
   \<and> (''fg.old'', JArr [JStr ''fg.default'', JStr ''scale.black'']) \<in> set exampleChain
   \<and> JStr ''fg.default''
       \<in> set (replacementTargets (JArr [JStr ''fg.default'', JStr ''scale.black'']))
   \<and> ''fg.default'' \<in> set (map fst exampleChain)
   \<and> existsInCollection exampleCollection ''fg.default''
   \<and> DeprecatedReplacement ''fg.old'' (JStr ''fg.default'') ''deprecated.json''
       \<in> set (validations validateDeprecatedVar exampleCollection ''deprecated.json'' exampleChain)
   \<and> UndefinedReplacement ''fg.old'' (JStr ''fg.default'') ''deprecated.json''
       \<notin> set (validations validateDeprecatedVar exampleCollection ''deprecated.json'' exampleChain)"
  using chained_iff_target_exists [where validateVar = validateDeprecatedVar
      and original = "''fg.old''" and replacement = "JArr [JStr ''fg.default'', JStr ''scale.black'']"
      and replacementMap = exampleChain and s = "''fg.default''"
      and collection = exampleCollection and inputFile = "''deprecated.json''"]
  by (simp add: exampleCollection_def exampleLight_def exampleDark_def existsInCollection_def getFullName_def
      getByName_def exampleChain_def validateDeprecatedVar_def
      validations_def entryErrors_def forEachReplacementVar_def checkReplacementVar_def)

text \<open>
  C4 as stated fails: in deprecated mode the entry \<^verbatim>\<open>fg.old\<close> points at the key
  \<^verbatim>\<open>bg.gone\<close>, whose own entry does not validate because no mode defines it, and no
  chained-replacement error is among the errors.
\<close>

theorem chained_regardless_counterexample:
  "(''fg.old'', JStr ''bg.gone'') \<in> set exampleLedger
   \<and> JStr ''bg.gone'' \<in> set (replacementTargets (JStr ''bg.gone''))
   \<and> ''bg.gone'' \<in> set (map fst exampleLedger)
   \<and> validations validateDeprecatedVar exampleCollection ''deprecated.json'' exampleLedger =
       [CannotDeprecateUndefined ''fg.old'' ''deprecated.json'',
        UndefinedReplacement ''fg.old'' (JStr ''bg.gone'') ''deprecated.json'',
        CannotDeprecateUndefined ''bg.gone'' ''deprecated.json'']
   \<and> \<not> list_ex isChainedReplacement
         (validations validateDeprecatedVar exampleCollection ''deprecated.json'' exampleLedger)"
  by (simp add: exampleCollection_def exampleLight_def exampleDark_def existsInCollection_def getFullName_def
      getByName_def exampleLedger_def validateDeprecatedVar_def
      validations_def entryErrors_def forEachReplacementVar_def checkReplacementVar_def)

text \<open>
  C5, as the code has it. The validation loop visits every entry and collects the
  errors of all of them, in the order of the entries, without stopping at the first; then
  \<^verbatim>\<open>writeReplacements\<close> itself decides: with no error it writes the ledger out, and with
  any error it logs the whole list and ends the process with status 1.
\<close>

theorem violations_collected_then_exit:
  "(replacementMap = before @ entry # after \<longrightarrow>
      validations validateVar collection inputFile replacementMap =
        concat (map (entryErrors validateVar collection inputFile replacementMap) before)
        @ entryErrors validateVar collection inputFile replacementMap entry
        @ concat (map (entryErrors validateVar collection inputFile replacementMap) after))
   \<and> writeReplacements (Ledger replacementMap) inputFilename outputDir collection validateVar =
       (if validations validateVar collection
             (dataDir @ ''/'' @ mc_type collection @ ''/'' @ inputFilename) replacementMap = []
        then Written outputDir (mc_type collection @ ''.json'') replacementMap
        else Exit 1 (Violations (validations validateVar collection
               (dataDir @ ''/'' @ mc_type collection @ ''/'' @ inputFilename) replacementMap)))"
  by (simp add: validations_def writeReplacements_def Let_def)

text \<open>
  A ledger with two entries, both with errors, and a ledger without errors, which is
  written out.
\<close>

theorem violations_collected_then_exit_witness:
  "exampleLedger = [] @ (''fg.old'', JStr ''bg.gone'') # [(''bg.gone'', JNull)]
   \<and> validations validateDeprecatedVar exampleCollection ''deprecated.json'' exampleLedger =
       entryErrors validateDeprecatedVar exampleCollection ''deprecated.json'' exampleLedger
         (''fg.old'', JStr ''bg.gone'')
       @ entryErrors validateDeprecatedVar exampleCollection ''deprecated.json'' exampleLedger
         (''bg.gone'', JNull)
   \<and> writeReplacements (Ledger [(''fg.default'', JStr ''scale.black'')]) ''deprecated.json''
         ''dist/deprecated'' exampleCollection validateDeprecatedVar =
       Written ''dist/deprecated'' ''colors.json'' [(''fg.default'', JStr ''scale.black'')]"
  using violations_collected_then_exit [where replacementMap = exampleLedger and before = "[]"
      and entry = "(''fg.old'', JStr ''bg.gone'')" and after = "[(''bg.gone'', JNull)]"
      and validateVar = validateDeprecatedVar and collection = exampleCollection
      and inputFile = "''deprecated.json''"]
    violations_collected_then_exit [where replacementMap = "[(''fg.default'', JStr ''scale.black'')]"
      and validateVar = validateDeprecatedVar and collection = exampleCollection
      and inputFilename = "''deprecated.json''" and outputDir = "''dist/deprecated''"]
  by (simp add: exampleCollection_def exampleLight_def exampleDark_def existsInCollection_def getFullName_def
      getByName_def exampleLedger_def validateDeprecatedVar_def
      validations_def entryErrors_def forEachReplacementVar_def checkReplacementVar_def writeReplacements_def
      dataDir_def Let_def)

text \<open>
  C5 as stated fails: on a ledger with violations \<^verbatim>\<open>writeReplacements\<close> does not hand
  the list to its caller, it ends the process with status 1.
\<close>

theorem validation_exits_counterexample:
  "writeReplacements (Ledger exampleLedger) ''deprecated.json'' ''dist/deprecated''
     exampleCollection validateDeprecatedVar =
   Exit 1 (Violations
     [CannotDeprecateUndefined ''fg.old'' ''data/colors/deprecated.json'',
      UndefinedReplacement ''fg.old'' (JStr ''bg.gone'') ''data/colors/deprecated.json'',
      CannotDeprecateUndefined ''bg.gone'' ''data/colors/deprecated.json''])"
  by (simp add: exampleCollection_def exampleLight_def exampleDark_def existsInCollection_def getFullName_def
      getByName_def exampleLedger_def validateDeprecatedVar_def
      validations_def entryErrors_def forEachReplacementVar_def checkReplacementVar_def writeReplacements_def
      dataDir_def Let_def)

subsection \<open>The Name Resolver\<close>

text \<open>
  C6. The full name of a prefix and a non-empty path is the prefix, \<^verbatim>\<open>-\<close>, the first
  segment, and each remaining segment preceded by \<^verbatim>\<open>.\<close>, with nothing else done to the
  strings; and the function is injective on the well-formed pairs, those whose prefix
  has no \<^verbatim>\<open>-\<close> and whose segments have no \<^verbatim>\<open>.\<close>.
\<close>

theorem fullName_formula_injective:
  "getFullName p (a # rest) = p @ ''-'' @ a @ concat (map (\<lambda>s. ''.'' @ s) rest)
   \<and> getFullName p [a, b, c] = p @ ''-'' @ a @ ''.'' @ b @ ''.'' @ c
   \<and> (wellFormedName p1 path1 \<and> wellFormedName p2 path2
        \<and> getFullName p1 path1 = getFullName p2 path2
      \<longrightarrow> p1 = p2 \<and> path1 = path2)"
proof -
  have "map (\<lambda>s. ''.'' @ s) rest = map ((#) CHR ''.'') rest"
    by simp
  then have "getFullName p (a # rest) = p @ ''-'' @ a @ concat (map (\<lambda>s. ''.'' @ s) rest)"
    by (simp add: getFullName_Cons)
  moreover have "getFullName p [a, b, c] = p @ ''-'' @ a @ ''.'' @ b @ ''.'' @ c"
    by (simp add: getFullName_Cons)
  moreover have "wellFormedName p1 path1 \<and> wellFormedName p2 path2
        \<and> getFullName p1 path1 = getFullName p2 path2
      \<longrightarrow> p1 = p2 \<and> path1 = path2"
    using getFullName_inj by blast
  ultimately show ?thesis by blast
qed

text \<open>
  The example of the spec: prefix \<^verbatim>\<open>colors\<close>, path \<^verbatim>\<open>btn.primary.bg\<close>.
\<close>

theorem fullName_formula_injective_witness:
  "getFullName ''colors'' [''btn'', ''primary'', ''bg''] = ''colors-btn.primary.bg''
   \<and> wellFormedName ''colors'' [''btn'', ''primary'', ''bg'']
   \<and> wellFormedName ''colors'' [''btn'', ''primary'', ''bg'']
   \<and> getFullName ''colors'' [''btn'', ''primary'', ''bg'']
       = getFullName ''colors'' [''btn'', ''primary'', ''bg'']"
  using fullName_formula_injective [of "''colors''" "''btn''" "[''primary'', ''bg'']"
      "''primary''" "''bg''" "''colors''" "[''btn'', ''primary'', ''bg'']"
      "''colors''" "[''btn'', ''primary'', ''bg'']"]
  by (simp add: wellFormedName_def)

subsection \<open>The Variable Collection\<close>

text \<open>
  C7. Flattening a well-formed token tree into a fresh Variable Collection and calling
  \<^verbatim>\<open>tree()\<close> gives back the tree: the same keys in the same order at every level, the
  same literals and deferred functions at the leaves, and at each reference the resolved
  value of the variable it names. Well-formed means that the keys of each mapping are
  distinct, no nested mapping is empty and no two leaves have the same canonical name.
\<close>

theorem flatten_tree_roundtrip:
  assumes "wellFormedTree prefix tokens"
    and "addFromObject (newVariableCollection mode prefix) tokens = Inr vars"
  shows "map_option Obj (resolvedEntries vars tokens) = Some (tree vars)"
proof -
  let ?vars0 = "newVariableCollection mode prefix :: ('a, 'b) VariableCollection"
  let ?ls = "entryLeaves [] tokens"
  have p0: "vc_prefix ?vars0 = prefix" and d0: "vc_data ?vars0 = []"
    and n0: "variableNames ?vars0 = []"
    by (simp_all add: newVariableCollection_def variableNames_def)
  from assms(2) have walk: "addLeaves ?vars0 ?ls = Inr vars"
    by (simp add: addFromObject_def walk_as_leaves)
  from assms(1) have proper: "properEntries tokens"
    and dist: "distinct (map (\<lambda>l. getFullName (vc_prefix ?vars0) (fst l)) ?ls)"
    by (simp_all add: wellFormedTree_def p0)
  have fresh: "\<forall>l \<in> set ?ls. getFullName (vc_prefix ?vars0) (fst l) \<notin> set (variableNames ?vars0)"
    by (simp add: n0)
  from addLeaves_data [OF walk leaves_not_nested(2) dist fresh]
  have data: "vc_data vars =
        map (\<lambda>l. (getFullName prefix (fst l),
                  \<lparr>var_name = getFullName prefix (fst l),
                   var_value = the (leafValue vars (snd l)), var_path = fst l\<rparr>)) ?ls"
    and vals: "\<forall>l \<in> set ?ls. leafValue vars (snd l) \<noteq> None"
    by (simp_all add: p0 d0)
  from resolved_defined(2) [of "[]" tokens vars] vals
  obtain xs where xs: "resolvedEntries vars tokens = Some xs" by auto
  have "tree vars = Obj (rebuild [] (valued vars ?ls))"
    by (simp add: tree_rebuild data valued_def comp_def)
  also have "rebuild [] (valued vars ?ls) = [] @ xs"
    using rebuild_resolved(2) [of tokens vars] proper xs by simp
  finally show ?thesis
    by (simp add: xs)
qed

text \<open>
  A tree with two groups, a nested group, literals, a deferred function and two
  references.
\<close>

theorem flatten_tree_roundtrip_witness:
  "wellFormedTree ''colors'' exampleTree
   \<and> addFromObject (newVariableCollection ''light'' ''colors'') exampleTree = Inr exampleFlat
   \<and> tree exampleFlat =
       Obj [(''scale'', Obj [(''black'', Leaf (Scalar ''#1b1f23'')),
                             (''white'', Leaf (Scalar ''#ffffff''))]),
            (''btn'', Obj [(''text'', Leaf (Scalar ''#1b1f23'')),
                           (''shadow'', Leaf (Deferred ())),
                           (''primary'', Obj [(''text'', Leaf (Scalar ''#ffffff''))])])]
   \<and> map_option Obj (resolvedEntries exampleFlat exampleTree) = Some (tree exampleFlat)"
  using flatten_tree_roundtrip [where prefix = "''colors''" and tokens = exampleTree
      and mode = "''light''" and vars = exampleFlat]
  by (simp add: exampleTree_def exampleFlat_def wellFormedTree_def newVariableCollection_def
      addFromObject_def addVariable_def resolveReference_def getFullName_def getByName_def
      tree_def Let_def)

text \<open>
  C8. A reference resolves to the resolved value of the variable with the referenced
  name when that variable is already in the collection, and the leaf is inserted with that
  value; when it is not, the result is the undefined reference error, with the name and
  the mode. A whole walk succeeds exactly when every reference names a variable that was
  in the collection before the walk (an earlier merge) or a leaf the walk has passed; a
  walk with a reference to a name that neither the collection nor an earlier leaf has
  fails, whether or not a later leaf declares the name: there are no forward references;
  and the only failure of a walk is an undefined reference.
\<close>

theorem references_single_pass:
  "(getByName vars (getFullName (vc_prefix vars) (splitDot d)) = Some x \<longrightarrow>
      addValue vars path (Reference d) = Inr (addVariable vars path (var_value x))
      \<and> getByName (addVariable vars path (var_value x)) (getFullName (vc_prefix vars) path) =
          Some \<lparr>var_name = getFullName (vc_prefix vars) path, var_value = var_value x,
                var_path = path\<rparr>)
   \<and> (getByName vars (getFullName (vc_prefix vars) (splitDot u)) = None \<longrightarrow>
        addValue vars path (Reference u) = Inl (UndefinedReference u (vc_name vars)))
   \<and> ((\<exists>vars'. addFromObject vars tokens = Inr vars') \<longleftrightarrow>
        referencesDefined (vc_prefix vars) (variableNames vars) (entryLeaves [] tokens))
   \<and> (entryLeaves [] later = before @ (at, Reference n) # after
        \<and> getFullName (vc_prefix vars) (splitDot n)
            \<notin> set (variableNames vars)
              \<union> set (map (\<lambda>l. getFullName (vc_prefix vars) (fst l)) before)
      \<longrightarrow> (\<exists>m. addFromObject vars later = Inl (UndefinedReference m (vc_name vars))))
   \<and> (addFromObject vars later = Inl e \<longrightarrow> (\<exists>m. e = UndefinedReference m (vc_name vars)))"
proof -
  have "(\<exists>vars'. addFromObject vars tokens = Inr vars') \<longleftrightarrow>
      referencesDefined (vc_prefix vars) (variableNames vars) (entryLeaves [] tokens)"
    unfolding addFromObject_def walk_as_leaves
    by (rule addLeaves_succeeds_iff) (rule leaves_not_nested)
  moreover have "addFromObject vars later = Inl e \<longrightarrow>
      (\<exists>m. e = UndefinedReference m (vc_name vars))"
    unfolding addFromObject_def walk_as_leaves
    using addLeaves_error_mode [OF leaves_not_nested(2)] by blast
  moreover have "entryLeaves [] later = before @ (at, Reference n) # after
        \<and> getFullName (vc_prefix vars) (splitDot n)
            \<notin> set (variableNames vars)
              \<union> set (map (\<lambda>l. getFullName (vc_prefix vars) (fst l)) before)
      \<longrightarrow> (\<exists>m. addFromObject vars later = Inl (UndefinedReference m (vc_name vars)))"
    using forward_reference_fails by blast
  ultimately show ?thesis
    by (simp add: resolveReference_def getByName_addVariable)
qed

text \<open>
  Into the light mode: a reference to \<^verbatim>\<open>scale.black\<close>, which is there; one to
  \<^verbatim>\<open>btn.bg\<close>, which is not; a tree whose references look back; and a tree whose first
  leaf refers to a later one.
\<close>

theorem references_single_pass_witness:
  "getByName exampleLight (getFullName (vc_prefix exampleLight) (splitDot ''scale.black'')) =
     Some \<lparr>var_name = ''colors-scale.black'', var_value = Scalar ''#1b1f23'',
           var_path = [''scale'', ''black'']\<rparr>
   \<and> addValue exampleLight [''btn'', ''text''] (Reference ''scale.black'') =
       Inr (addVariable exampleLight [''btn'', ''text''] (Scalar ''#1b1f23''))
   \<and> getByName exampleLight (getFullName (vc_prefix exampleLight) (splitDot ''btn.bg'')) = None
   \<and> addValue exampleLight [''btn'', ''text''] (Reference ''btn.bg'') =
       Inl (UndefinedReference ''btn.bg'' ''light'')
   \<and> referencesDefined (vc_prefix exampleLight) (variableNames exampleLight)
         (entryLeaves [] exampleTree)
   \<and> entryLeaves [] exampleForward =
       [] @ ([''btn'', ''text''], Reference ''scale.white'')
          # [([''scale'', ''white''], Literal ''#ffffff'')]
   \<and> getFullName (vc_prefix exampleLight) (splitDot ''scale.white'')
       \<notin> set (variableNames exampleLight)
         \<union> set (map (\<lambda>l. getFullName (vc_prefix exampleLight) (fst l)) [])
   \<and> addFromObject exampleLight exampleForward = Inl (UndefinedReference ''scale.white'' ''light'')"
  using references_single_pass [where vars = exampleLight and d = "''scale.black''"
      and x = "\<lparr>var_name = ''colors-scale.black'', var_value = Scalar ''#1b1f23'',
                 var_path = [''scale'', ''black'']\<rparr>"
      and path = "[''btn'', ''text'']" and u = "''btn.bg''" and tokens = exampleTree
      and later = exampleForward and before = "[]" and at = "[''btn'', ''text'']"
      and n = "''scale.white''" and after = "[([''scale'', ''white''], Literal ''#ffffff'')]"
      and e = "UndefinedReference ''scale.white'' ''light''"]
  by (simp add: exampleLight_def exampleTree_def exampleForward_def addFromObject_def
      addVariable_def resolveReference_def getFullName_def getByName_def variableNames_def Let_def)

subsection \<open>The Mode Collection\<close>

text \<open>
  C9. \<^verbatim>\<open>validate()\<close> of a finalized Mode Collection says valid exactly when all its
  Variable Collections have the same set of variable names, whatever the values; it is
  valid exactly when the list of errors is empty; and the errors are, once each, the pairs
  of a mode and a variable that the mode lacks and another mode has.
\<close>

theorem validate_name_parity:
  "(isValid (validate (finalize collection)) \<longleftrightarrow>
      (\<forall>(m, vars) \<in> set (mc_modes collection). \<forall>(m', vars') \<in> set (mc_modes collection).
         set (variableNames vars) = set (variableNames vars')))
   \<and> (isValid (validate (finalize collection)) \<longleftrightarrow> errors (validate (finalize collection)) = [])
   \<and> distinct (errors (validate (finalize collection)))
   \<and> set (errors (validate (finalize collection))) =
       {ModeParityViolation m n | m vars n.
          (m, vars) \<in> set (mc_modes collection) \<and> n \<notin> set (variableNames vars)
          \<and> (\<exists>(m', vars') \<in> set (mc_modes collection). n \<in> set (variableNames vars'))}"
proof -
  let ?c = "finalize collection"
  have "errors (validate ?c) = [] \<longleftrightarrow> set (errors (validate ?c)) = {}"
    by simp
  also have "\<dots> \<longleftrightarrow>
      (\<forall>(m, vars) \<in> set (mc_modes collection). \<forall>(m', vars') \<in> set (mc_modes collection).
         set (variableNames vars) = set (variableNames vars'))"
    unfolding validate_errors_set finalize_modes by fast
  finally show ?thesis
    by (simp add: validate_isValid validate_distinct validate_errors_set finalize_modes)
qed

text \<open>
  A light mode with a variable the dark mode lacks: one error. Two dark modes with the
  same names and different values: valid.
\<close>

theorem validate_name_parity_witness:
  "validate (finalize exampleCollection) =
     \<lparr>isValid = False, errors = [ModeParityViolation ''dark'' ''colors-fg.default'']\<rparr>
   \<and> validate (finalize exampleDarks) = \<lparr>isValid = True, errors = []\<rparr>
   \<and> variableNames exampleDark = variableNames exampleDim
   \<and> getByName exampleDark ''colors-scale.black'' \<noteq> getByName exampleDim ''colors-scale.black''"
  using validate_name_parity [of exampleCollection] validate_name_parity [of exampleDarks]
  by (simp add: validate_def finalize_def missingIn_def exampleCollection_def exampleLight_def
      exampleDark_def exampleDarks_def exampleDim_def getByName_def variableNames_def Let_def)

subsection \<open>Existence in a Mode Collection\<close>

text \<open>
  C10. A dotted name exists in a Mode Collection when the prefixed name is present in
  at least one mode; so a name that one mode has and another lacks still counts as
  defined.
\<close>

theorem exists_in_some_mode:
  "(existsInCollection collection n \<longleftrightarrow>
      (\<exists>(m, vars) \<in> set (mc_modes collection).
         getByName vars (getFullName (mc_prefix collection) (splitDot n)) \<noteq> None))
   \<and> ((m1, vars1) \<in> set (mc_modes collection) \<and> (m2, vars2) \<in> set (mc_modes collection)
        \<and> getByName vars1 (getFullName (mc_prefix collection) (splitDot n)) \<noteq> None
        \<and> getByName vars2 (getFullName (mc_prefix collection) (splitDot n)) = None
      \<longrightarrow> existsInCollection collection n)"
  by (force simp: existsInCollection_def list_ex_iff)

text \<open>
  \<^verbatim>\<open>fg.default\<close> is in the light mode and not in the dark mode, and exists.
\<close>

theorem exists_in_some_mode_witness:
  "(''light'', exampleLight) \<in> set (mc_modes exampleCollection)
   \<and> (''dark'', exampleDark) \<in> set (mc_modes exampleCollection)
   \<and> getByName exampleLight (getFullName (mc_prefix exampleCollection) (splitDot ''fg.default''))
       \<noteq> None
   \<and> getByName exampleDark (getFullName (mc_prefix exampleCollection) (splitDot ''fg.default''))
       = None
   \<and> existsInCollection exampleCollection ''fg.default''"
  using exists_in_some_mode [of exampleCollection "''fg.default''" "''light''" exampleLight
      "''dark''" exampleDark]
  by (simp add: exampleCollection_def exampleLight_def exampleDark_def existsInCollection_def getFullName_def
      getByName_def)

end
